theory Spec2Isabelle
  imports
    Complex_Main
    "HOL-Library.Sublist"
    "HOL-Library.Multiset"
    "HOL-Library.Product_Lexorder"
    "HOL-Library.List_Lexorder"
    "HOL-Library.Char_ord"
begin

section \<open>Strings\<close>

text \<open>
  Header and file-name strings are lists of 8-bit characters. Python's \<^verbatim>\<open>key in s\<close> on
  strings is \<^const>\<open>sublist\<close> \<open>key s\<close> (a contiguous occurrence), \<^verbatim>\<open>s.endswith(t)\<close> is
  \<^const>\<open>suffix\<close> \<open>t s\<close>. \<^verbatim>\<open>str.lower\<close> changes the letters A to Z only; every rule key
  of the scripts is ASCII, and no other 8-bit character lower-cases to an ASCII one.
\<close>

definition lower_char :: "char \<Rightarrow> char" where
  "lower_char c =
     (case map_of (zip ''ABCDEFGHIJKLMNOPQRSTUVWXYZ'' ''abcdefghijklmnopqrstuvwxyz'') c of
        Some d \<Rightarrow> d
      | None \<Rightarrow> c)"

definition lower :: "string \<Rightarrow> string" where
  "lower s = map lower_char s"

text \<open>\<^verbatim>\<open>str.strip(chars)\<close>: drop the characters in question from both ends.\<close>

definition strip_chars :: "(char \<Rightarrow> bool) \<Rightarrow> string \<Rightarrow> string" where
  "strip_chars P s = rev (dropWhile P (rev (dropWhile P s)))"

text \<open>The characters \<^verbatim>\<open>str.strip()\<close> removes, among the code points below 256.\<close>

definition is_space :: "char \<Rightarrow> bool" where
  "is_space c \<longleftrightarrow>
     c \<in> set [CHR 0x09, CHR 0x0A, CHR 0x0B, CHR 0x0C, CHR 0x0D, CHR 0x1C, CHR 0x1D,
              CHR 0x1E, CHR 0x1F, CHR 0x20, CHR 0x85, CHR 0xA0]"

definition strip :: "string \<Rightarrow> string" where
  "strip s = strip_chars is_space s"

text \<open>\<^verbatim>\<open>s.split(d)\<close> for a one-character separator: never the empty list.\<close>

fun split_on :: "char \<Rightarrow> string \<Rightarrow> string list" where
  "split_on d [] = [[]]"
| "split_on d (c # cs) =
     (if c = d then [] # split_on d cs
      else (case split_on d cs of
              p # ps \<Rightarrow> (c # p) # ps
            | [] \<Rightarrow> [[c]]))"

section \<open>Header normalisation (process\_data.py)\<close>

text \<open>The dictionary \<^verbatim>\<open>mappings\<close> of \<^verbatim>\<open>standardize_column_name\<close>, in insertion order.\<close>

definition mappings :: "(string \<times> string) list" where
  "mappings =
     [(''week/month'', ''age_weeks''),
      (''years'', ''age_years''),
      (''age'', ''age_years''),
      (''(years)'', ''age_years''),
      (''week'', ''age_weeks''),
      (''month'', ''age_months''),
      (''skeletal age'', ''skeletal_age''),
      (''ht. (inches)'', ''height_inches''),
      (''mature height'', ''mature_height_pct''),
      (''chart'', ''reference'')]"

text \<open>The character class \<^verbatim>\<open>[a-zA-Z0-9_]\<close>.\<close>

definition is_word_char :: "char \<Rightarrow> bool" where
  "is_word_char c \<longleftrightarrow>
     c \<in> set ''abcdefghijklmnopqrstuvwxyzABCDEFGHIJKLMNOPQRSTUVWXYZ0123456789_''"

text \<open>\<^verbatim>\<open>re.sub(r'[^a-zA-Z0-9_]', '_', col)\<close>\<close>

definition sub_nonword :: "string \<Rightarrow> string" where
  "sub_nonword col = map (\<lambda>c. if is_word_char c then c else CHR ''_'') col"

text \<open>\<^verbatim>\<open>re.sub(r'_+', '_', col)\<close>: every run of underscores becomes one underscore.\<close>

fun sub_underscores :: "string \<Rightarrow> string" where
  "sub_underscores [] = []"
| "sub_underscores [c] = [c]"
| "sub_underscores (c # d # cs) =
     (if c = CHR ''_'' \<and> d = CHR ''_'' then sub_underscores (d # cs)
      else c # sub_underscores (d # cs))"

text \<open>Lines 47 to 51: the label when no key of \<^const>\<open>mappings\<close> occurs in it.\<close>

definition sanitized :: "string \<Rightarrow> string" where
  "sanitized col = lower (strip_chars (\<lambda>c. c = CHR ''_'') (sub_underscores (sub_nonword col)))"

definition standardize_column_name :: "string \<Rightarrow> string" where
  "standardize_column_name col0 =
     (let col = strip col0;
          col_lower = lower col
      in case find (\<lambda>(key, value). sublist key col_lower) mappings of
           Some (key, value) \<Rightarrow> value
         | None \<Rightarrow> sanitized col)"

text \<open>The characters of a label made by \<^const>\<open>sanitized\<close>: \<^verbatim>\<open>[a-z0-9_]\<close>.\<close>

definition lowword :: "char \<Rightarrow> bool" where
  "lowword c \<longleftrightarrow> c \<in> set ''abcdefghijklmnopqrstuvwxyz0123456789_''"

section \<open>Tables\<close>

text \<open>
  A cell of a table is missing (\<^verbatim>\<open>NaN\<close> or \<^verbatim>\<open>None\<close>: what \<^verbatim>\<open>pd.isna\<close> accepts), a number
  (an \<^verbatim>\<open>int\<close> or a \<^verbatim>\<open>float\<close>, read as a real number: rounding is not modelled) or a string.
  A data frame is its column labels and its rows, every row holding one cell per label.
  \<^verbatim>\<open>row[col]\<close> is the cell under the label \<open>col\<close>. Under a label that occurs twice pandas
  hands out a sub-series, not a cell, and the test of line 66 raises \<^verbatim>\<open>ValueError\<close>; so
  \<open>cell_at\<close> is \<^verbatim>\<open>row[col]\<close> for pairwise distinct labels only, and the theorems below
  assume them.
\<close>

datatype cell = NaN | Num real | Str string

record dataframe =
  columns :: "string list"
  rows :: "cell list list"

definition wf_frame :: "dataframe \<Rightarrow> bool" where
  "wf_frame df \<longleftrightarrow>
     distinct (columns df) \<and> (\<forall>r \<in> set (rows df). length r = length (columns df))"

definition cell_at :: "string list \<Rightarrow> cell list \<Rightarrow> string \<Rightarrow> cell" where
  "cell_at cols r c = (case map_of (zip cols r) c of Some v \<Rightarrow> v | None \<Rightarrow> NaN)"

definition isna :: "cell \<Rightarrow> bool" where
  "isna v \<longleftrightarrow> v = NaN"

section \<open>LMS extraction (process\_data.py)\<close>

text \<open>
  One dictionary \<^verbatim>\<open>result_row\<close>. A key that is absent and a key bound to \<^verbatim>\<open>None\<close> are both
  \<open>None\<close> here: the script reads these keys with \<^verbatim>\<open>.get\<close> only, which does not tell them apart.
\<close>

record result_row =
  row_source :: string
  row_measurement :: string
  age_years :: "real option"
  age_weeks :: "real option"
  age_months :: "real option"
  row_gender :: "string option"
  row_age_range :: "string option"
  L :: "cell option"
  M :: "cell option"
  S :: "cell option"

text \<open>Truth value of an optional string argument (\<^verbatim>\<open>if gender:\<close>).\<close>

definition truthy :: "string option \<Rightarrow> bool" where
  "truthy s \<longleftrightarrow> (case s of None \<Rightarrow> False | Some t \<Rightarrow> t \<noteq> [])"

text \<open>
  The dtype of the rows \<^verbatim>\<open>df.iterrows()\<close> yields, which is the common dtype of the columns
  of the frame: \<open>Int64\<close> when every column holds integers, \<open>Float64\<close> when every column
  holds numbers and one of them a float or a missing cell, \<open>Object\<close> otherwise. A number
  taken from an \<open>Int64\<close> row is a \<^verbatim>\<open>numpy.int64\<close>, which is an instance of neither
  \<^verbatim>\<open>int\<close> nor \<^verbatim>\<open>float\<close>; from a \<open>Float64\<close> row it is a \<^verbatim>\<open>numpy.float64\<close>, which is a
  \<^verbatim>\<open>float\<close>; from an \<open>Object\<close> row it is a Python \<^verbatim>\<open>int\<close> or \<^verbatim>\<open>float\<close>.
\<close>

datatype dtype = Int64 | Float64 | Object

text \<open>Line 84: \<^verbatim>\<open>isinstance(age_val, (int, float))\<close>\<close>

definition isinstance_int_float :: "dtype \<Rightarrow> cell \<Rightarrow> bool" where
  "isinstance_int_float row_dtype age_val \<longleftrightarrow>
     (case age_val of Num v \<Rightarrow> row_dtype \<noteq> Int64 | _ \<Rightarrow> False)"

text \<open>
  Lines 83 to 96: the raw age by its magnitude. The products and quotients are those of
  the real numbers; the script rounds them to floats.
\<close>

definition extract_age :: "dtype \<Rightarrow> cell \<Rightarrow> result_row \<Rightarrow> result_row" where
  "extract_age row_dtype age_val result_row =
     (if isinstance_int_float row_dtype age_val then
        (case age_val of
           Num v \<Rightarrow>
             (if v < 2 then
                result_row\<lparr>age_years := Some v, age_weeks := Some (v * 52.1775),
                           age_months := Some (v * 12)\<rparr>
              else if v < 52 then
                result_row\<lparr>age_weeks := Some v, age_years := Some (v / 52.1775),
                           age_months := Some (v / 4.348)\<rparr>
              else
                result_row\<lparr>age_months := Some v, age_years := Some (v / 12),
                           age_weeks := Some (v * 4.348)\<rparr>)
         | _ \<Rightarrow> result_row)
      else result_row)"

text \<open>\<^verbatim>\<open>row[col] if not pd.isna(row[col]) else dflt\<close>\<close>

definition value_or :: "cell \<Rightarrow> cell option \<Rightarrow> cell option" where
  "value_or v dflt = (if \<not> isna v then Some v else dflt)"

text \<open>Lines 99 to 107: the body of the first loop over the columns.\<close>

definition generic_step ::
  "string \<Rightarrow> (string \<Rightarrow> cell) \<Rightarrow> result_row \<Rightarrow> string \<Rightarrow> result_row" where
  "generic_step measurement_type row result_row col =
     (let col_lower = lower col in
      if sublist (lower measurement_type) col_lower \<or> sublist ''lms'' col_lower then
        if suffix ''l'' col_lower \<or> sublist ''_l'' col_lower then
          result_row\<lparr>L := value_or (row col) None\<rparr>
        else if suffix ''m'' col_lower \<or> sublist ''_m'' col_lower then
          result_row\<lparr>M := value_or (row col) None\<rparr>
        else if suffix ''s'' col_lower \<or> sublist ''_s'' col_lower then
          result_row\<lparr>S := value_or (row col) None\<rparr>
        else result_row
      else result_row)"

text \<open>Lines 114 and 115: the two tests a column passes to be read by the second loop.\<close>

definition gender_column :: "string \<Rightarrow> string \<Rightarrow> bool" where
  "gender_column gender_prefix col_lower \<longleftrightarrow>
     sublist gender_prefix col_lower \<and>
     sublist ''l'' col_lower \<and>
     (sublist ''height'' col_lower \<or> sublist ''weight'' col_lower \<or>
      sublist ''bmi'' col_lower \<or> sublist ''hc'' col_lower)"

text \<open>Lines 112 to 122: the body of the second loop over the columns.\<close>

definition gender_step ::
  "string \<Rightarrow> (string \<Rightarrow> cell) \<Rightarrow> result_row \<Rightarrow> string \<Rightarrow> result_row" where
  "gender_step gender_prefix row result_row col =
     (let col_lower = lower col in
      if gender_column gender_prefix col_lower then
        let parts = split_on (CHR ''_'') col_lower in
        if sublist ''l'' (last parts) \<or> suffix ''l'' col_lower then
          result_row\<lparr>L := value_or (row col) (L result_row)\<rparr>
        else if sublist ''m'' (last parts) \<or> suffix ''m'' col_lower then
          result_row\<lparr>M := value_or (row col) (M result_row)\<rparr>
        else if sublist ''s'' (last parts) \<or> suffix ''s'' col_lower then
          result_row\<lparr>S := value_or (row col) (S result_row)\<rparr>
        else result_row
      else result_row)"

text \<open>The dictionary of lines 69 to 80.\<close>

definition new_result_row ::
  "string \<Rightarrow> string \<Rightarrow> string option \<Rightarrow> string option \<Rightarrow> result_row" where
  "new_result_row source_name measurement_type gender age_range =
     \<lparr>row_source = source_name, row_measurement = measurement_type,
      age_years = None, age_weeks = None, age_months = None,
      row_gender = (if truthy gender then gender else None),
      row_age_range = (if truthy age_range then age_range else None),
      L = None, M = None, S = None\<rparr>"

text \<open>Lines 98 to 122: both loops, the second only under a gender.\<close>

definition scan_lms ::
  "string list \<Rightarrow> string \<Rightarrow> string option \<Rightarrow> (string \<Rightarrow> cell) \<Rightarrow> result_row \<Rightarrow> result_row" where
  "scan_lms cols measurement_type gender row result_row =
     (let result_row = foldl (generic_step measurement_type row) result_row cols in
      if truthy gender then
        let gender_prefix = (if gender = Some ''male'' then ''male'' else ''female'')
        in foldl (gender_step gender_prefix row) result_row cols
      else result_row)"

text \<open>Lines 65 to 125: one turn of the loop over the rows; \<open>None\<close> when nothing is appended.\<close>

definition process_row ::
  "dtype \<Rightarrow> string list \<Rightarrow> string \<Rightarrow> string \<Rightarrow> string \<Rightarrow> string option \<Rightarrow>
   string option \<Rightarrow> cell list \<Rightarrow> result_row option" where
  "process_row row_dtype cols age_col source_name measurement_type gender age_range r =
     (let row = cell_at cols r in
      if isna (row age_col) then None
      else
        let result_row = new_result_row source_name measurement_type gender age_range;
            age_val = row age_col;
            result_row = extract_age row_dtype age_val result_row;
            result_row = scan_lms cols measurement_type gender row result_row
        in if M result_row \<noteq> None then Some result_row else None)"

text \<open>Lines 63 to 125: the loop over the rows and the list it fills.\<close>

definition extract_rows ::
  "dtype \<Rightarrow> string list \<Rightarrow> string \<Rightarrow> string \<Rightarrow> string \<Rightarrow> string option \<Rightarrow>
   string option \<Rightarrow> cell list list \<Rightarrow> result_row list" where
  "extract_rows row_dtype cols age_col source_name measurement_type gender age_range rs =
     List.map_filter
       (process_row row_dtype cols age_col source_name measurement_type gender age_range) rs"

text \<open>\<^verbatim>\<open>process_lms_data\<close>, for a frame and the dtype of its rows.\<close>

definition process_lms_data ::
  "dtype \<Rightarrow> dataframe \<Rightarrow> string \<Rightarrow> string \<Rightarrow> string option \<Rightarrow> string option \<Rightarrow>
   result_row list option" where
  "process_lms_data row_dtype df source_name measurement_type gender age_range =
     (let age_cols =
            filter (\<lambda>col. sublist ''age'' (lower col) \<or> sublist ''week'' (lower col) \<or>
                           sublist ''month'' (lower col)) (columns df)
      in case age_cols of
           [] \<Rightarrow> None
         | age_col # _ \<Rightarrow>
             (let result_rows =
                    extract_rows row_dtype (columns df) age_col source_name measurement_type
                      gender age_range (rows df)
              in if result_rows \<noteq> [] then Some result_rows else None))"

text \<open>
  Which branch of lines 117 to 122 a column takes in the second loop, written out for the
  statements below; \<open>gender_step_branches\<close> relates them to \<^const>\<open>gender_step\<close>.
\<close>

definition assigns_L :: "string \<Rightarrow> string \<Rightarrow> bool" where
  "assigns_L gender_prefix col \<longleftrightarrow>
     gender_column gender_prefix (lower col) \<and>
     (sublist ''l'' (last (split_on (CHR ''_'') (lower col))) \<or> suffix ''l'' (lower col))"

definition assigns_M :: "string \<Rightarrow> string \<Rightarrow> bool" where
  "assigns_M gender_prefix col \<longleftrightarrow>
     gender_column gender_prefix (lower col) \<and> \<not> assigns_L gender_prefix col \<and>
     (sublist ''m'' (last (split_on (CHR ''_'') (lower col))) \<or> suffix ''m'' (lower col))"

definition assigns_S :: "string \<Rightarrow> string \<Rightarrow> bool" where
  "assigns_S gender_prefix col \<longleftrightarrow>
     gender_column gender_prefix (lower col) \<and> \<not> assigns_L gender_prefix col \<and>
     \<not> assigns_M gender_prefix col \<and>
     (sublist ''s'' (last (split_on (CHR ''_'') (lower col))) \<or> suffix ''s'' (lower col))"

section \<open>Standardisation (02\_standardize\_data.py)\<close>

definition WHO_MEASUREMENT_MAP :: "(string \<times> string) list" where
  "WHO_MEASUREMENT_MAP =
     [(''bmi'', ''bmifa''), (''lhfa'', ''lhfa''), (''wfa'', ''wfa''), (''hcfa'', ''hcfa''),
      (''acfa'', ''acfa''), (''ssfa'', ''ssfa''), (''tsfa'', ''tsfa''), (''wfl'', ''wfl''),
      (''wfh'', ''wfh'')]"

definition CDC_MEASUREMENT_MAP :: "(string \<times> string) list" where
  "CDC_MEASUREMENT_MAP =
     [(''wtageinf'', ''wfa''), (''wtage'', ''wfa''), (''lenageinf'', ''lhfa''),
      (''statage'', ''hfa''), (''hcageinf'', ''hcfa''), (''wtleninf'', ''wfl''),
      (''wtstat'', ''wfh''), (''bmiage'', ''bmifa'')]"

definition weeks_to_months :: "real \<Rightarrow> real" where
  "weeks_to_months weeks = weeks / 4.33"

text \<open>The exceptions pandas raises that no handler of the script catches.\<close>

datatype error = KeyError | TypeError

text \<open>
  The loop \<^verbatim>\<open>for pattern, meas_type in MAP.items(): if pattern in filename: ... break\<close>:
  the value of the first pattern, in the order of the dictionary, that occurs in the name.
\<close>

definition find_measurement :: "(string \<times> string) list \<Rightarrow> string \<Rightarrow> string option" where
  "find_measurement measurement_map filename =
     map_option snd (find (\<lambda>(pattern, meas_type). sublist pattern filename) measurement_map)"

subsection \<open>The operations of pandas the script calls\<close>

text \<open>\<^verbatim>\<open>df[cols]\<close> for a list of labels.\<close>

definition select_columns :: "string list \<Rightarrow> dataframe \<Rightarrow> dataframe" where
  "select_columns cols df =
     \<lparr>columns = cols, rows = map (\<lambda>r. map (cell_at (columns df) r) cols) (rows df)\<rparr>"

text \<open>\<^verbatim>\<open>df.drop(c, axis=1)\<close>\<close>

definition drop_column :: "string \<Rightarrow> dataframe \<Rightarrow> dataframe" where
  "drop_column c df =
     \<lparr>columns = filter (\<lambda>d. d \<noteq> c) (columns df),
      rows = map (\<lambda>r. map snd (filter (\<lambda>(d, v). d \<noteq> c) (zip (columns df) r))) (rows df)\<rparr>"

text \<open>\<^verbatim>\<open>df.rename(columns={a: b})\<close>\<close>

definition rename_column :: "string \<Rightarrow> string \<Rightarrow> dataframe \<Rightarrow> dataframe" where
  "rename_column a b df = df\<lparr>columns := map (\<lambda>d. if d = a then b else d) (columns df)\<rparr>"

text \<open>\<^verbatim>\<open>df[c]\<close> for one label: the cells of that column.\<close>

definition column :: "string \<Rightarrow> dataframe \<Rightarrow> cell list" where
  "column c df = map (\<lambda>r. cell_at (columns df) r c) (rows df)"

text \<open>\<^verbatim>\<open>df[c] = values\<close>: in place when the label exists, a new last column otherwise.\<close>

definition assign_column :: "string \<Rightarrow> cell list \<Rightarrow> dataframe \<Rightarrow> dataframe" where
  "assign_column c vals df =
     (if c \<in> set (columns df) then
        df\<lparr>rows := map (\<lambda>(r, v). map (\<lambda>(d, old). if d = c then v else old) (zip (columns df) r))
                       (zip (rows df) vals)\<rparr>
      else
        \<lparr>columns = columns df @ [c], rows = map (\<lambda>(r, v). r @ [v]) (zip (rows df) vals)\<rparr>)"

text \<open>\<^verbatim>\<open>df[df[c] == n]\<close> for a number \<open>n\<close>.\<close>

definition rows_equal :: "string \<Rightarrow> real \<Rightarrow> dataframe \<Rightarrow> dataframe" where
  "rows_equal c n df = df\<lparr>rows := filter (\<lambda>r. cell_at (columns df) r c = Num n) (rows df)\<rparr>"

fun is_num :: "cell \<Rightarrow> bool" where
  "is_num (Num v) = True"
| "is_num _ = False"

fun is_str :: "cell \<Rightarrow> bool" where
  "is_str (Str s) = True"
| "is_str _ = False"

text \<open>\<^verbatim>\<open>weeks_to_months\<close> on a column: dividing a string raises.\<close>

definition series_weeks_to_months :: "cell list \<Rightarrow> error + cell list" where
  "series_weeks_to_months weeks =
     (if \<exists>v \<in> set weeks. is_str v then Inl TypeError
      else Inr (map (\<lambda>v. case v of Num w \<Rightarrow> Num (weeks_to_months w) | _ \<Rightarrow> NaN) weeks))"

text \<open>
  \<^verbatim>\<open>pd.concat(dfs, ignore_index=True)\<close>: the labels of all frames in the order of their
  first appearance, the rows of all frames in the order of the list, a cell missing where
  a frame has no such column.
\<close>

definition first_labels :: "string list \<Rightarrow> string list" where
  "first_labels cs = rev (remdups (rev cs))"

definition pd_concat :: "dataframe list \<Rightarrow> dataframe" where
  "pd_concat dfs =
     (let cols = first_labels (concat (map columns dfs)) in
      \<lparr>columns = cols,
       rows = concat (map (\<lambda>df. map (\<lambda>r. map (\<lambda>c. if c \<in> set (columns df)
                                                    then cell_at (columns df) r c else NaN) cols)
                                     (rows df)) dfs)\<rparr>)"

text \<open>
  The order \<^verbatim>\<open>sort_values\<close> puts the cells of one column in: numbers by value, strings by
  code points, missing cells last. A column mixing numbers and strings cannot be compared.
\<close>

fun sort_rank :: "cell \<Rightarrow> nat \<times> real \<times> string" where
  "sort_rank (Num v) = (0, v, [])"
| "sort_rank (Str s) = (1, 0, s)"
| "sort_rank NaN = (2, 0, [])"

text \<open>
  \<^verbatim>\<open>drop_duplicates(subset=[x_col], keep='last')\<close>: a row goes when a later row has the
  same value; the rows that stay keep their order.
\<close>

fun drop_duplicates_last :: "('a \<Rightarrow> 'b) \<Rightarrow> 'a list \<Rightarrow> 'a list" where
  "drop_duplicates_last f [] = []"
| "drop_duplicates_last f (r # rs) =
     (if f r \<in> f ` set rs then drop_duplicates_last f rs
      else r # drop_duplicates_last f rs)"

text \<open>
  \<^verbatim>\<open>DataFrame.sort_values\<close> is an argument of the model of \<^verbatim>\<open>combine_dataframes\<close>. The
  script calls it with the default \<^verbatim>\<open>kind\<close>, quicksort, of which pandas says this much:
  the rows come back in ascending order of the key, none lost or added. The order of rows
  with equal keys is left open (only the kinds \<^verbatim>\<open>mergesort\<close> and \<^verbatim>\<open>stable\<close> keep it).
\<close>

definition ordered_sort :: "(('a \<Rightarrow> 'k::linorder) \<Rightarrow> 'a list \<Rightarrow> 'a list) \<Rightarrow> bool" where
  "ordered_sort sort_values \<longleftrightarrow>
     (\<forall>key rs. sorted (map key (sort_values key rs)) \<and> mset (sort_values key rs) = mset rs)"

subsection \<open>The functions of the script\<close>

text \<open>Lines 64 to 68.\<close>

definition who_gender :: "string \<Rightarrow> string option" where
  "who_gender filename =
     (if sublist ''boys'' filename \<or> sublist ''male'' filename then Some ''boys''
      else if sublist ''girls'' filename \<or> sublist ''female'' filename then Some ''girls''
      else None)"

text \<open>\<^verbatim>\<open>cols = [x_col] + [c for c in df.columns if c != x_col]; df = df[cols]\<close>\<close>

definition x_first :: "string \<Rightarrow> dataframe \<Rightarrow> dataframe" where
  "x_first x_col df = select_columns (x_col # filter (\<lambda>c. c \<noteq> x_col) (columns df)) df"

text \<open>
  \<^verbatim>\<open>process_who_file\<close>. The file is its stem and what \<^verbatim>\<open>pd.read_csv\<close> gives for it:
  \<open>None\<close> when reading raises (the handler returns \<^verbatim>\<open>None\<close>).
\<close>

definition process_who_file ::
  "string \<Rightarrow> dataframe option \<Rightarrow> error + (string \<times> string \<times> dataframe) option" where
  "process_who_file stem read_csv =
     (let filename = lower stem in
      case find_measurement WHO_MEASUREMENT_MAP filename of
        None \<Rightarrow> Inr None
      | Some measurement \<Rightarrow>
          (case who_gender filename of
             None \<Rightarrow> Inr None
           | Some gender \<Rightarrow>
               (case read_csv of
                  None \<Rightarrow> Inr None
                | Some df \<Rightarrow>
                    if measurement \<in> set [''wfl'', ''wfh''] then
                      if ''Length'' \<in> set (columns df) then
                        Inr (Some (measurement, gender, x_first ''Length'' df))
                      else if ''Height'' \<in> set (columns df) then
                        Inr (Some (measurement, gender, x_first ''Height'' df))
                      else Inr None
                    else if ''Week'' \<in> set (columns df) then
                      (case series_weeks_to_months (column ''Week'' df) of
                         Inl e \<Rightarrow> Inl e
                       | Inr months \<Rightarrow>
                           Inr (Some (measurement, gender,
                                  x_first ''Month''
                                    (drop_column ''Week'' (assign_column ''Month'' months df)))))
                    else if ''Month'' \<notin> set (columns df) then Inr None
                    else Inr (Some (measurement, gender, x_first ''Month'' df)))))"

text \<open>
  The loop \<^verbatim>\<open>for sex_code, gender in [(1, 'boys'), (2, 'girls')]\<close>, which the script
  writes twice (lines 156 to 167 and 178 to 190) with the same body.
\<close>

definition split_by_sex ::
  "string \<Rightarrow> string \<Rightarrow> dataframe \<Rightarrow> (string \<times> string \<times> dataframe) list" where
  "split_by_sex measurement x_col df =
     concat (map (\<lambda>(sex_code, gender).
                    let gender_df = rows_equal ''Sex'' sex_code df in
                    if length (rows gender_df) > 0 then
                      [(measurement, gender, x_first x_col (drop_column ''Sex'' gender_df))]
                    else [])
                 [(1, ''boys''), (2, ''girls'')])"

definition process_cdc_file ::
  "string \<Rightarrow> dataframe option \<Rightarrow> (string \<times> string \<times> dataframe) list" where
  "process_cdc_file stem read_csv =
     (let filename = lower stem in
      case find_measurement CDC_MEASUREMENT_MAP filename of
        None \<Rightarrow> []
      | Some measurement \<Rightarrow>
          (case read_csv of
             None \<Rightarrow> []
           | Some df \<Rightarrow>
               if measurement \<in> set [''wfl'', ''wfh''] then
                 if ''Sex'' \<notin> set (columns df) then []
                 else if ''Length'' \<in> set (columns df) then split_by_sex measurement ''Length'' df
                 else if ''Height'' \<in> set (columns df) then split_by_sex measurement ''Height'' df
                 else if ''Stature'' \<in> set (columns df) then
                   split_by_sex measurement ''Stature'' df
                 else []
               else if ''Sex'' \<notin> set (columns df) \<or> ''Agemos'' \<notin> set (columns df) then []
               else split_by_sex measurement ''Month'' (rename_column ''Agemos'' ''Month'' df)))"

text \<open>
  \<^verbatim>\<open>combine_dataframes\<close>; \<open>Inr None\<close> is the \<^verbatim>\<open>None\<close> it returns, \<open>Inl\<close> an exception of
  pandas: a label that is no column, a column that cannot be ordered.
\<close>

definition combine_dataframes ::
  "((cell list \<Rightarrow> nat \<times> real \<times> string) \<Rightarrow> cell list list \<Rightarrow> cell list list) \<Rightarrow>
   dataframe list \<Rightarrow> string \<Rightarrow> error + dataframe option" where
  "combine_dataframes sort_values dfs x_col =
     (if dfs = [] then Inr None
      else
        let combined = pd_concat dfs in
        if x_col \<notin> set (columns combined) then Inl KeyError
        else if (\<exists>v \<in> set (column x_col combined). is_num v) \<and>
                (\<exists>v \<in> set (column x_col combined). is_str v) then Inl TypeError
        else
          let x = (\<lambda>r. cell_at (columns combined) r x_col);
              combined = combined\<lparr>rows := sort_values (\<lambda>r. sort_rank (x r)) (rows combined)\<rparr>;
              combined = combined\<lparr>rows := drop_duplicates_last x (rows combined)\<rparr>
          in Inr (Some combined))"

text \<open>
  The two loops of \<^verbatim>\<open>main\<close> that fill \<^verbatim>\<open>who_data\<close> and \<^verbatim>\<open>cdc_data\<close>, dictionaries from
  (measurement, gender) to the list of frames, in insertion order.
\<close>

type_synonym table_store = "((string \<times> string) \<times> dataframe list) list"

definition append_table :: "string \<times> string \<Rightarrow> dataframe \<Rightarrow> table_store \<Rightarrow> table_store" where
  "append_table k df d =
     (if k \<in> fst ` set d then map (\<lambda>(k', dfs). if k' = k then (k', dfs @ [df]) else (k', dfs)) d
      else d @ [(k, [df])])"

fun collect_who :: "table_store \<Rightarrow> (string \<times> dataframe option) list \<Rightarrow> error + table_store" where
  "collect_who who_data [] = Inr who_data"
| "collect_who who_data ((stem, read_csv) # who_files) =
     (case process_who_file stem read_csv of
        Inl e \<Rightarrow> Inl e
      | Inr None \<Rightarrow> collect_who who_data who_files
      | Inr (Some (measurement, gender, df)) \<Rightarrow>
          collect_who (append_table (measurement, gender) df who_data) who_files)"

fun collect_cdc :: "table_store \<Rightarrow> (string \<times> dataframe option) list \<Rightarrow> table_store" where
  "collect_cdc cdc_data [] = cdc_data"
| "collect_cdc cdc_data ((stem, read_csv) # cdc_files) =
     collect_cdc
       (foldl (\<lambda>d (measurement, gender, df). append_table (measurement, gender) df d)
          cdc_data (process_cdc_file stem read_csv))
       cdc_files"

section \<open>Properties of the LMS extraction\<close>

lemmas str_eval = lower_def lower_char_def sublist_code suffix_to_prefix

lemma generic_step_ages:
  "age_years (generic_step mt row rr col) = age_years rr"
  "age_weeks (generic_step mt row rr col) = age_weeks rr"
  "age_months (generic_step mt row rr col) = age_months rr"
  by (simp_all add: generic_step_def Let_def)

lemma gender_step_ages:
  "age_years (gender_step gp row rr col) = age_years rr"
  "age_weeks (gender_step gp row rr col) = age_weeks rr"
  "age_months (gender_step gp row rr col) = age_months rr"
  by (simp_all add: gender_step_def Let_def)

lemma foldl_generic_ages:
  "age_years (foldl (generic_step mt row) rr cols) = age_years rr"
  "age_weeks (foldl (generic_step mt row) rr cols) = age_weeks rr"
  "age_months (foldl (generic_step mt row) rr cols) = age_months rr"
  by (induction cols arbitrary: rr; simp add: generic_step_ages)+

lemma foldl_gender_ages:
  "age_years (foldl (gender_step gp row) rr cols) = age_years rr"
  "age_weeks (foldl (gender_step gp row) rr cols) = age_weeks rr"
  "age_months (foldl (gender_step gp row) rr cols) = age_months rr"
  by (induction cols arbitrary: rr; simp add: gender_step_ages)+

lemma scan_lms_ages:
  "age_years (scan_lms cols mt g row rr) = age_years rr"
  "age_weeks (scan_lms cols mt g row rr) = age_weeks rr"
  "age_months (scan_lms cols mt g row rr) = age_months rr"
  by (simp_all add: scan_lms_def Let_def foldl_generic_ages foldl_gender_ages)

lemma process_row_ages:
  assumes "process_row dt cols age_col src mt g ar r = Some out"
  shows "age_years out =
           age_years (extract_age dt (cell_at cols r age_col) (new_result_row src mt g ar))"
    and "age_weeks out =
           age_weeks (extract_age dt (cell_at cols r age_col) (new_result_row src mt g ar))"
    and "age_months out =
           age_months (extract_age dt (cell_at cols r age_col) (new_result_row src mt g ar))"
  using assms by (auto simp: process_row_def Let_def scan_lms_ages split: if_splits)

lemma extract_rows_append:
  "extract_rows dt cols age_col src mt g ar (before @ r # after) =
     extract_rows dt cols age_col src mt g ar before @
     (case process_row dt cols age_col src mt g ar r of None \<Rightarrow> [] | Some out \<Rightarrow> [out]) @
     extract_rows dt cols age_col src mt g ar after"
  by (simp add: extract_rows_def List.map_filter_def split: option.splits)




text \<open>
  Claim C3. Under pairwise distinct labels, a row that reaches the two column scans (its
  age cell is not missing) is appended if and only if \<open>M\<close> is set once both scans have run:
  then the row appended is the scanned one, whatever \<open>L\<close> and \<open>S\<close> hold, and otherwise nothing
  is appended. In both cases the rows before and after it are processed as without it.
\<close>

theorem row_emitted_iff_M_set:
  assumes "distinct cols"
    and "\<not> isna (cell_at cols r age_col)"
    and "result_row =
           scan_lms cols measurement_type gender (cell_at cols r)
             (extract_age row_dtype (cell_at cols r age_col)
                (new_result_row source_name measurement_type gender age_range))"
  shows "(M result_row \<noteq> None \<longrightarrow>
            process_row row_dtype cols age_col source_name measurement_type gender age_range r
              = Some result_row \<and>
            extract_rows row_dtype cols age_col source_name measurement_type gender age_range
                (before @ r # after)
              = extract_rows row_dtype cols age_col source_name measurement_type gender
                  age_range before @
                result_row #
                extract_rows row_dtype cols age_col source_name measurement_type gender
                  age_range after) \<and>
         (M result_row = None \<longrightarrow>
            process_row row_dtype cols age_col source_name measurement_type gender age_range r
              = None \<and>
            extract_rows row_dtype cols age_col source_name measurement_type gender age_range
                (before @ r # after)
              = extract_rows row_dtype cols age_col source_name measurement_type gender
                  age_range before @
                extract_rows row_dtype cols age_col source_name measurement_type gender
                  age_range after)"
proof -
  have pr: "process_row row_dtype cols age_col source_name measurement_type gender age_range r
      = (if M result_row \<noteq> None then Some result_row else None)"
    using assms by (simp add: process_row_def Let_def)
  show ?thesis
    by (simp add: extract_rows_append pr)
qed

theorem row_emitted_iff_M_set_witness:
  "map M (extract_rows Float64 [''age_years'', ''weight_m'', ''male_weight_s'']
            ''age_years'' ''uk90'' ''weight'' (Some ''male'') None
            ([[Num 0.5, Num 7.5, Num 0.12]] @ [Num 1, Num 9.5, NaN] #
             [[Num 1.5, Num 11, Num 0.11]]))
     = [Some (Num 7.5), Some (Num 9.5), Some (Num 11)] \<and>
   map S (extract_rows Float64 [''age_years'', ''weight_m'', ''male_weight_s'']
            ''age_years'' ''uk90'' ''weight'' (Some ''male'') None
            ([[Num 0.5, Num 7.5, Num 0.12]] @ [Num 1, Num 9.5, NaN] #
             [[Num 1.5, Num 11, Num 0.11]]))
     = [Some (Num 0.12), None, Some (Num 0.11)] \<and>
   map M (extract_rows Float64 [''age_years'', ''weight_m'', ''male_weight_s'']
            ''age_years'' ''uk90'' ''weight'' (Some ''male'') None
            ([[Num 0.5, Num 7.5, Num 0.12]] @ [Num 1, NaN, Num 0.1] #
             [[Num 1.5, Num 11, Num 0.11]]))
     = [Some (Num 7.5), Some (Num 11)]"
proof -
  let ?cols = "[''age_years'', ''weight_m'', ''male_weight_s'']"
  let ?new = "new_result_row ''uk90'' ''weight'' (Some ''male'') None"
  let ?scan = "\<lambda>r. scan_lms ?cols ''weight'' (Some ''male'') (cell_at ?cols r)
                     (extract_age Float64 (cell_at ?cols r ''age_years'') ?new)"
  let ?rows = "extract_rows Float64 ?cols ''age_years'' ''uk90'' ''weight'' (Some ''male'') None"
  have d: "distinct ?cols"
    by simp
  have a: "\<not> isna (cell_at ?cols [Num 1, Num 9.5, NaN] ''age_years'')"
    and b: "\<not> isna (cell_at ?cols [Num 1, NaN, Num 0.1] ''age_years'')"
    by (simp_all add: cell_at_def isna_def)
  have ev: "M (?scan [Num x, m, s]) = value_or m None \<and> S (?scan [Num x, m, s]) = value_or s None"
    for x m s
    by (simp add: scan_lms_def truthy_def generic_step_def gender_step_def gender_column_def
        cell_at_def extract_age_def isinstance_int_float_def new_result_row_def value_or_def
        isna_def str_eval Let_def)
  have one: "?rows [[Num x, Num m, s]] = [?scan [Num x, Num m, s]]" for x m s
    using ev [of x "Num m" s]
    by (simp add: extract_rows_def List.map_filter_def process_row_def cell_at_def isna_def
        value_or_def Let_def)
  have m1: "M (?scan [Num 1, Num 9.5, NaN]) \<noteq> None"
    and m2: "M (?scan [Num 1, NaN, Num 0.1]) = None"
    using ev [of 1 "Num 9.5" NaN] ev [of 1 NaN "Num 0.1"] by (simp_all add: value_or_def isna_def)
  have r1: "?rows ([[Num 0.5, Num 7.5, Num 0.12]] @ [Num 1, Num 9.5, NaN] #
                   [[Num 1.5, Num 11, Num 0.11]])
      = ?rows [[Num 0.5, Num 7.5, Num 0.12]] @ ?scan [Num 1, Num 9.5, NaN] #
        ?rows [[Num 1.5, Num 11, Num 0.11]]"
    using row_emitted_iff_M_set [OF d a refl] m1 by blast
  have r2: "?rows ([[Num 0.5, Num 7.5, Num 0.12]] @ [Num 1, NaN, Num 0.1] #
                   [[Num 1.5, Num 11, Num 0.11]])
      = ?rows [[Num 0.5, Num 7.5, Num 0.12]] @ ?rows [[Num 1.5, Num 11, Num 0.11]]"
    using row_emitted_iff_M_set [OF d b refl] m2 by blast
  show ?thesis
    unfolding r1 r2 one
    using ev [of "0.5" "Num 7.5" "Num 0.12"] ev [of 1 "Num 9.5" NaN]
      ev [of "1.5" "Num 11" "Num 0.11"]
    by (simp add: value_or_def isna_def)
qed

text \<open>
  Claim C4 does not hold as it is stated: the one row of this table has the string
  \<open>birth\<close> for its age, and it is appended, with no age.
\<close>

theorem non_numeric_age_counterexample:
  "extract_rows Object [''age_years'', ''weight_m''] ''age_years'' ''uk90'' ''weight'' None None
     [[Str ''birth'', Num 3.5]]
   = [\<lparr>row_source = ''uk90'', row_measurement = ''weight'',
       age_years = None, age_weeks = None, age_months = None,
       row_gender = None, row_age_range = None,
       L = None, M = Some (Num 3.5), S = None\<rparr>]"
  by (simp add: extract_rows_def List.map_filter_def process_row_def cell_at_def isna_def
      new_result_row_def truthy_def extract_age_def isinstance_int_float_def scan_lms_def
      generic_step_def value_or_def str_eval Let_def)

text \<open>
  Claim C4, as the script has it. Under pairwise distinct labels, a row whose age cell is
  missing is dropped. A row whose age cell holds a string is not dropped for that: it is
  appended whenever \<open>M\<close> is set, and then \<open>age_years\<close>, \<open>age_weeks\<close> and \<open>age_months\<close> are
  all unset. The other rows of the table are processed either way.
\<close>

theorem age_cell_missing_or_non_numeric:
  assumes "distinct cols"
  shows
  "(isna (cell_at cols r age_col) \<longrightarrow>
      process_row row_dtype cols age_col source_name measurement_type gender age_range r
        = None \<and>
      extract_rows row_dtype cols age_col source_name measurement_type gender age_range
          (before @ r # after)
        = extract_rows row_dtype cols age_col source_name measurement_type gender age_range
            before @
          extract_rows row_dtype cols age_col source_name measurement_type gender age_range
            after) \<and>
   (cell_at cols r age_col = Str s \<longrightarrow>
      process_row row_dtype cols age_col source_name measurement_type gender age_range r
        = (let result_row = scan_lms cols measurement_type gender (cell_at cols r)
                              (new_result_row source_name measurement_type gender age_range)
           in if M result_row \<noteq> None then Some result_row else None) \<and>
      (\<forall>out. process_row row_dtype cols age_col source_name measurement_type gender
                age_range r = Some out
         \<longrightarrow> age_years out = None \<and> age_weeks out = None \<and> age_months out = None)) \<and>
   extract_rows row_dtype cols age_col source_name measurement_type gender age_range
       (before @ r # after)
     = extract_rows row_dtype cols age_col source_name measurement_type gender age_range
         before @
       (case process_row row_dtype cols age_col source_name measurement_type gender
               age_range r of
          None \<Rightarrow> [] | Some out \<Rightarrow> [out]) @
       extract_rows row_dtype cols age_col source_name measurement_type gender age_range
         after"
proof -
  have na: "process_row row_dtype cols age_col source_name measurement_type gender age_range r
      = None"
    if "isna (cell_at cols r age_col)"
    using that by (simp add: process_row_def)
  have str: "process_row row_dtype cols age_col source_name measurement_type gender age_range r
        = (let result_row = scan_lms cols measurement_type gender (cell_at cols r)
                              (new_result_row source_name measurement_type gender age_range)
           in if M result_row \<noteq> None then Some result_row else None)"
    if "cell_at cols r age_col = Str s"
    using that
    by (simp add: process_row_def isna_def extract_age_def isinstance_int_float_def Let_def)
  have ages: "age_years out = None \<and> age_weeks out = None \<and> age_months out = None"
    if "cell_at cols r age_col = Str s"
      and "process_row row_dtype cols age_col source_name measurement_type gender age_range r
             = Some out"
    for out
    using process_row_ages [OF that(2)] that(1)
    by (simp add: extract_age_def isinstance_int_float_def new_result_row_def)
  show ?thesis
    using na str ages by (simp add: extract_rows_append)
qed

theorem age_cell_missing_or_non_numeric_witness:
  "extract_rows Float64 [''age_years'', ''weight_m''] ''age_years'' ''uk90'' ''weight'' None None
     ([[Num 0.5, Num 7.5]] @ [NaN, Num 3.5] # [[Num 1, Num 9.5]])
   = extract_rows Float64 [''age_years'', ''weight_m''] ''age_years'' ''uk90'' ''weight''
       None None [[Num 0.5, Num 7.5]] @
     extract_rows Float64 [''age_years'', ''weight_m''] ''age_years'' ''uk90'' ''weight''
       None None [[Num 1, Num 9.5]] \<and>
   map_option M
     (process_row Object [''age_years'', ''weight_m''] ''age_years'' ''uk90'' ''weight''
        None None [Str ''birth'', Num 3.5]) = Some (Some (Num 3.5)) \<and>
   map_option age_years
     (process_row Object [''age_years'', ''weight_m''] ''age_years'' ''uk90'' ''weight''
        None None [Str ''birth'', Num 3.5]) = Some None"
proof -
  let ?cols = "[''age_years'', ''weight_m'']"
  have d: "distinct ?cols"
    by simp
  have a: "isna (cell_at ?cols [NaN, Num 3.5] ''age_years'')"
    and b: "cell_at ?cols [Str ''birth'', Num 3.5] ''age_years'' = Str ''birth''"
    by (simp_all add: cell_at_def isna_def)
  have m: "M (scan_lms ?cols ''weight'' None (cell_at ?cols [Str ''birth'', Num 3.5])
             (new_result_row ''uk90'' ''weight'' None None)) = Some (Num 3.5)"
    by (simp add: scan_lms_def truthy_def generic_step_def cell_at_def
        new_result_row_def value_or_def isna_def str_eval Let_def)
  note first = age_cell_missing_or_non_numeric
        [OF d, where r = "[NaN, Num 3.5]" and age_col = "''age_years''"
           and row_dtype = Float64
           and source_name = "''uk90''" and measurement_type = "''weight''"
           and gender = None and age_range = None
           and before = "[[Num 0.5, Num 7.5]]" and after = "[[Num 1, Num 9.5]]"]
  note second = age_cell_missing_or_non_numeric
        [OF d, where r = "[Str ''birth'', Num 3.5]" and age_col = "''age_years''"
           and row_dtype = Object
           and s = "''birth''" and source_name = "''uk90''" and measurement_type = "''weight''"
           and gender = None and age_range = None and before = "[]" and after = "[]"]
  have p: "extract_rows Float64 ?cols ''age_years'' ''uk90'' ''weight'' None None
     ([[Num 0.5, Num 7.5]] @ [NaN, Num 3.5] # [[Num 1, Num 9.5]])
   = extract_rows Float64 ?cols ''age_years'' ''uk90'' ''weight'' None None
       [[Num 0.5, Num 7.5]] @
     extract_rows Float64 ?cols ''age_years'' ''uk90'' ''weight'' None None [[Num 1, Num 9.5]]"
    using first a by blast
  have q: "process_row Object ?cols ''age_years'' ''uk90'' ''weight'' None None
        [Str ''birth'', Num 3.5]
      = Some (scan_lms ?cols ''weight'' None (cell_at ?cols [Str ''birth'', Num 3.5])
             (new_result_row ''uk90'' ''weight'' None None))"
    using second [THEN conjunct2, THEN conjunct1] b m by (simp add: Let_def)
  have "age_years (scan_lms ?cols ''weight'' None (cell_at ?cols [Str ''birth'', Num 3.5])
             (new_result_row ''uk90'' ''weight'' None None)) = None"
    using second [THEN conjunct2, THEN conjunct1] b q by blast
  then show ?thesis
    using p q m by simp
qed

lemma gender_step_branches:
  "gender_step gender_prefix row rr col =
     (if assigns_L gender_prefix col then rr\<lparr>L := value_or (row col) (L rr)\<rparr>
      else if assigns_M gender_prefix col then rr\<lparr>M := value_or (row col) (M rr)\<rparr>
      else if assigns_S gender_prefix col then rr\<lparr>S := value_or (row col) (S rr)\<rparr>
      else rr)"
  by (simp add: gender_step_def assigns_L_def assigns_M_def assigns_S_def Let_def)

lemma assigns_exclusive:
  "assigns_M gp c \<Longrightarrow> \<not> assigns_L gp c"
  "assigns_S gp c \<Longrightarrow> \<not> assigns_L gp c"
  "assigns_S gp c \<Longrightarrow> \<not> assigns_M gp c"
  by (simp add: assigns_M_def, simp add: assigns_S_def, simp add: assigns_S_def)

lemma gender_step_fields:
  "L (gender_step gp row rr c) = (if assigns_L gp c \<and> \<not> isna (row c) then Some (row c) else L rr)"
  "M (gender_step gp row rr c) = (if assigns_M gp c \<and> \<not> isna (row c) then Some (row c) else M rr)"
  "S (gender_step gp row rr c) = (if assigns_S gp c \<and> \<not> isna (row c) then Some (row c) else S rr)"
  using assigns_exclusive [of gp c]
  by (auto simp: gender_step_branches value_or_def)

lemma gender_loop_L:
  "L (foldl (gender_step gp row) rr cols) =
     (case filter (\<lambda>c. assigns_L gp c \<and> \<not> isna (row c)) cols of
        [] \<Rightarrow> L rr | c # cs \<Rightarrow> Some (row (last (c # cs))))"
proof (induction cols rule: rev_induct)
  case Nil
  show ?case by simp
next
  case (snoc c cols)
  show ?case
    using snoc.IH
    by (cases "filter (\<lambda>c. assigns_L gp c \<and> \<not> isna (row c)) cols")
      (simp_all add: gender_step_fields)
qed

lemma gender_loop_M:
  "M (foldl (gender_step gp row) rr cols) =
     (case filter (\<lambda>c. assigns_M gp c \<and> \<not> isna (row c)) cols of
        [] \<Rightarrow> M rr | c # cs \<Rightarrow> Some (row (last (c # cs))))"
proof (induction cols rule: rev_induct)
  case Nil
  show ?case by simp
next
  case (snoc c cols)
  show ?case
    using snoc.IH
    by (cases "filter (\<lambda>c. assigns_M gp c \<and> \<not> isna (row c)) cols")
      (simp_all add: gender_step_fields)
qed

lemma gender_loop_S:
  "S (foldl (gender_step gp row) rr cols) =
     (case filter (\<lambda>c. assigns_S gp c \<and> \<not> isna (row c)) cols of
        [] \<Rightarrow> S rr | c # cs \<Rightarrow> Some (row (last (c # cs))))"
proof (induction cols rule: rev_induct)
  case Nil
  show ?case by simp
next
  case (snoc c cols)
  show ?case
    using snoc.IH
    by (cases "filter (\<lambda>c. assigns_S gp c \<and> \<not> isna (row c)) cols")
      (simp_all add: gender_step_fields)
qed

text \<open>
  Claim C5 does not hold as it is stated: in this row the first scan sets \<open>M\<close> to 10, from
  \<open>weight_m\<close>, and the second scan replaces it by 20, from \<open>male_bmi_m\<close>.
\<close>

theorem gender_strategy_overrides_counterexample:
  "M (foldl (generic_step ''weight'' (cell_at [''age_years'', ''weight_m'', ''male_bmi_m'']
                                         [Num 1, Num 10, Num 20]))
        (new_result_row ''uk90'' ''weight'' (Some ''male'') None)
        [''age_years'', ''weight_m'', ''male_bmi_m'']) = Some (Num 10) \<and>
   M (scan_lms [''age_years'', ''weight_m'', ''male_bmi_m''] ''weight'' (Some ''male'')
        (cell_at [''age_years'', ''weight_m'', ''male_bmi_m''] [Num 1, Num 10, Num 20])
        (new_result_row ''uk90'' ''weight'' (Some ''male'') None)) = Some (Num 20)"
  by (simp add: scan_lms_def truthy_def generic_step_def gender_step_def gender_column_def
      cell_at_def new_result_row_def value_or_def isna_def str_eval Let_def)

text \<open>
  Claim C5, as the script has it. Under pairwise distinct labels the second scan
  overwrites: under a gender, each of \<open>L\<close>, \<open>M\<close>, \<open>S\<close> ends as the cell of the last column
  the second loop assigns to it whose cell is present, and keeps what the first scan left
  only when there is no such column.
\<close>

theorem gender_strategy_overrides:
  assumes "distinct cols"
    and "row = cell_at cols r"
    and "truthy gender"
    and "gender_prefix = (if gender = Some ''male'' then ''male'' else ''female'')"
    and "generic = foldl (generic_step measurement_type row) result_row cols"
  shows "L (scan_lms cols measurement_type gender row result_row) =
           (case filter (\<lambda>c. assigns_L gender_prefix c \<and> \<not> isna (row c)) cols of
              [] \<Rightarrow> L generic | c # cs \<Rightarrow> Some (row (last (c # cs)))) \<and>
         M (scan_lms cols measurement_type gender row result_row) =
           (case filter (\<lambda>c. assigns_M gender_prefix c \<and> \<not> isna (row c)) cols of
              [] \<Rightarrow> M generic | c # cs \<Rightarrow> Some (row (last (c # cs)))) \<and>
         S (scan_lms cols measurement_type gender row result_row) =
           (case filter (\<lambda>c. assigns_S gender_prefix c \<and> \<not> isna (row c)) cols of
              [] \<Rightarrow> S generic | c # cs \<Rightarrow> Some (row (last (c # cs))))"
proof -
  have "scan_lms cols measurement_type gender row result_row
      = foldl (gender_step gender_prefix row) generic cols"
    using assms(3-5) by (simp add: scan_lms_def Let_def)
  then show ?thesis
    by (simp only: gender_loop_L gender_loop_M gender_loop_S simp_thms)
qed

theorem gender_strategy_overrides_witness:
  "M (scan_lms [''age_years'', ''weight_m'', ''male_bmi_m''] ''weight'' (Some ''male'')
        (cell_at [''age_years'', ''weight_m'', ''male_bmi_m''] [Num 1, Num 10, Num 20])
        (new_result_row ''uk90'' ''weight'' (Some ''male'') None)) = Some (Num 20) \<and>
   M (scan_lms [''age_years'', ''weight_m'', ''male_bmi_m''] ''weight'' (Some ''male'')
        (cell_at [''age_years'', ''weight_m'', ''male_bmi_m''] [Num 1, Num 10, NaN])
        (new_result_row ''uk90'' ''weight'' (Some ''male'') None)) = Some (Num 10)"
proof -
  let ?cols = "[''age_years'', ''weight_m'', ''male_bmi_m'']"
  let ?new = "new_result_row ''uk90'' ''weight'' (Some ''male'') None"
  have d: "distinct ?cols"
    by simp
  have t: "truthy (Some ''male'')"
    by (simp add: truthy_def)
  have a: "assigns_M ''male'' ''male_bmi_m''" "\<not> assigns_M ''male'' ''age_years''"
    "\<not> assigns_M ''male'' ''weight_m''"
    by (simp_all add: assigns_M_def assigns_L_def gender_column_def str_eval)
  have g: "M (foldl (generic_step ''weight'' (cell_at ?cols [Num 1, Num 10, v])) ?new ?cols)
      = Some (Num 10)" for v
    by (simp add: generic_step_def cell_at_def new_result_row_def value_or_def isna_def
        str_eval Let_def)
  show ?thesis
    using gender_strategy_overrides [OF d refl t refl refl, where r = "[Num 1, Num 10, Num 20]"
        and measurement_type = "''weight''" and result_row = ?new]
      gender_strategy_overrides [OF d refl t refl refl, where r = "[Num 1, Num 10, NaN]"
        and measurement_type = "''weight''" and result_row = ?new]
      a g
    by (simp add: cell_at_def isna_def)
qed

lemma female_has_male: "sublist ''female'' s \<Longrightarrow> sublist ''male'' s \<and> sublist ''l'' s"
proof -
  assume f: "sublist ''female'' s"
  have "sublist ''male'' ''female''" and "sublist ''l'' ''female''"
    by (simp_all add: sublist_code)
  with f show ?thesis
    by (blast intro: sublist_order.order_trans)
qed

text \<open>
  Claim C10. Under the gender \<open>male\<close> the second loop looks for \<open>male\<close> in the lower-cased
  label, so every label that contains \<open>female\<close> and one of \<open>height\<close>, \<open>weight\<close>, \<open>bmi\<close>,
  \<open>hc\<close> passes its tests; a row processed for \<open>male\<close> takes its \<open>M\<close> from the column
  \<open>female_bmi_m\<close>.
\<close>

theorem male_context_reads_female_columns:
  "(sublist ''female'' col_lower \<and>
    (sublist ''height'' col_lower \<or> sublist ''weight'' col_lower \<or>
     sublist ''bmi'' col_lower \<or> sublist ''hc'' col_lower)
    \<longrightarrow> gender_column ''male'' col_lower) \<and>
   process_row Float64 [''age_years'', ''female_bmi_m''] ''age_years'' ''cdc2000'' ''unknown''
       (Some ''male'') None [Num 1, Num 15.2]
     = Some \<lparr>row_source = ''cdc2000'', row_measurement = ''unknown'',
             age_years = Some 1, age_weeks = Some 52.1775, age_months = Some 12,
             row_gender = Some ''male'', row_age_range = None,
             L = None, M = Some (Num 15.2), S = None\<rparr>"
proof -
  have "process_row Float64 [''age_years'', ''female_bmi_m''] ''age_years'' ''cdc2000''
       ''unknown'' (Some ''male'') None [Num 1, Num 15.2]
     = Some \<lparr>row_source = ''cdc2000'', row_measurement = ''unknown'',
             age_years = Some 1, age_weeks = Some 52.1775, age_months = Some 12,
             row_gender = Some ''male'', row_age_range = None,
             L = None, M = Some (Num 15.2), S = None\<rparr>"
    by (simp add: process_row_def scan_lms_def truthy_def generic_step_def gender_step_def
        gender_column_def cell_at_def new_result_row_def extract_age_def
        isinstance_int_float_def value_or_def isna_def str_eval Let_def)
  then show ?thesis
    using female_has_male [of col_lower] by (simp add: gender_column_def)
qed

theorem male_context_reads_female_columns_witness:
  "sublist ''female'' (lower ''Female_BMI_M'') \<and> sublist ''bmi'' (lower ''Female_BMI_M'') \<and>
   gender_column ''male'' (lower ''Female_BMI_M'')"
  using male_context_reads_female_columns [of "lower ''Female_BMI_M''"]
  by (simp add: str_eval)

section \<open>Properties of the standardisation\<close>

text \<open>
  Claim C8. A file whose lower-cased stem holds no pattern of the measurement map (for a
  WHO file also: none of the four gender patterns) is skipped whole, whatever it contains:
  \<^const>\<open>process_who_file\<close> returns \<^verbatim>\<open>None\<close>, \<^const>\<open>process_cdc_file\<close> returns the empty
  list, and the dictionaries \<^verbatim>\<open>main\<close> collects the tables in are as without the file.
\<close>

theorem unclassifiable_file_skipped:
  "((\<forall>pattern \<in> fst ` set WHO_MEASUREMENT_MAP. \<not> sublist pattern (lower stem)) \<or>
    (\<forall>pattern \<in> set [''boys'', ''male'', ''girls'', ''female'']. \<not> sublist pattern (lower stem))
    \<longrightarrow> process_who_file stem read_csv = Inr None \<and>
        collect_who who_data ((stem, read_csv) # who_files) = collect_who who_data who_files) \<and>
   ((\<forall>pattern \<in> fst ` set CDC_MEASUREMENT_MAP. \<not> sublist pattern (lower stem))
    \<longrightarrow> process_cdc_file stem read_csv = [] \<and>
        collect_cdc cdc_data ((stem, read_csv) # cdc_files) = collect_cdc cdc_data cdc_files)"
proof -
  have find_none: "find_measurement m f = None"
    if "\<forall>pattern \<in> fst ` set m. \<not> sublist pattern f" for m f
    using that by (auto simp: find_measurement_def find_None_iff)
  have who1: "process_who_file stem read_csv = Inr None"
    if "\<forall>pattern \<in> fst ` set WHO_MEASUREMENT_MAP. \<not> sublist pattern (lower stem)"
    using find_none [OF that] by (simp add: process_who_file_def Let_def)
  have who2: "process_who_file stem read_csv = Inr None"
    if "\<forall>pattern \<in> set [''boys'', ''male'', ''girls'', ''female'']. \<not> sublist pattern (lower stem)"
  proof -
    have "who_gender (lower stem) = None"
      using that by (simp add: who_gender_def)
    then show ?thesis
      by (simp add: process_who_file_def Let_def split: option.splits)
  qed
  have cdc: "process_cdc_file stem read_csv = []"
    if "\<forall>pattern \<in> fst ` set CDC_MEASUREMENT_MAP. \<not> sublist pattern (lower stem)"
    using find_none [OF that] by (simp add: process_cdc_file_def Let_def)
  show ?thesis
    using who1 who2 cdc by auto
qed

theorem unclassifiable_file_skipped_witness:
  "find_measurement WHO_MEASUREMENT_MAP (lower ''RandomFile'') = None \<and>
   find_measurement CDC_MEASUREMENT_MAP (lower ''RandomFile'') = None \<and>
   \<not> sublist ''boys'' (lower ''bmi_0_5'') \<and> \<not> sublist ''male'' (lower ''bmi_0_5'') \<and>
   \<not> sublist ''girls'' (lower ''bmi_0_5'') \<and> \<not> sublist ''female'' (lower ''bmi_0_5'') \<and>
   process_who_file ''RandomFile''
     (Some \<lparr>columns = [''Month'', ''M''], rows = [[Num 0, Num 3.3]]\<rparr>) = Inr None \<and>
   process_who_file ''bmi_0_5''
     (Some \<lparr>columns = [''Month'', ''M''], rows = [[Num 0, Num 3.3]]\<rparr>) = Inr None \<and>
   process_cdc_file ''RandomFile''
     (Some \<lparr>columns = [''Sex'', ''Agemos'', ''M''], rows = [[Num 1, Num 0, Num 3.3]]\<rparr>) = []"
proof -
  have a: "\<forall>pattern \<in> fst ` set WHO_MEASUREMENT_MAP. \<not> sublist pattern (lower ''RandomFile'')"
    by (simp add: WHO_MEASUREMENT_MAP_def lower_def lower_char_def sublist_code)
  have b: "\<forall>pattern \<in> fst ` set CDC_MEASUREMENT_MAP. \<not> sublist pattern (lower ''RandomFile'')"
    by (simp add: CDC_MEASUREMENT_MAP_def lower_def lower_char_def sublist_code)
  have c: "\<forall>pattern \<in> set [''boys'', ''male'', ''girls'', ''female''].
      \<not> sublist pattern (lower ''bmi_0_5'')"
    by (simp add: lower_def lower_char_def sublist_code)
  have fa: "find_measurement WHO_MEASUREMENT_MAP (lower ''RandomFile'') = None"
    using a by (auto simp: find_measurement_def find_None_iff)
  have fb: "find_measurement CDC_MEASUREMENT_MAP (lower ''RandomFile'') = None"
    using b by (auto simp: find_measurement_def find_None_iff)
  have w1: "process_who_file ''RandomFile''
     (Some \<lparr>columns = [''Month'', ''M''], rows = [[Num 0, Num 3.3]]\<rparr>) = Inr None"
    using unclassifiable_file_skipped [of "''RandomFile''"] a by blast
  have w2: "process_who_file ''bmi_0_5''
     (Some \<lparr>columns = [''Month'', ''M''], rows = [[Num 0, Num 3.3]]\<rparr>) = Inr None"
    using unclassifiable_file_skipped [of "''bmi_0_5''"] c by blast
  have w3: "process_cdc_file ''RandomFile''
     (Some \<lparr>columns = [''Sex'', ''Agemos'', ''M''], rows = [[Num 1, Num 0, Num 3.3]]\<rparr>) = []"
    using unclassifiable_file_skipped [of "''RandomFile''"] b by blast
  from c have c': "\<not> sublist ''boys'' (lower ''bmi_0_5'') \<and> \<not> sublist ''male'' (lower ''bmi_0_5'') \<and>
   \<not> sublist ''girls'' (lower ''bmi_0_5'') \<and> \<not> sublist ''female'' (lower ''bmi_0_5'')"
    by simp
  show ?thesis
    using fa fb c' w1 w2 w3 by blast
qed

text \<open>
  Claim C9 does not hold as it is stated: for the empty list \<^const>\<open>combine_dataframes\<close>
  returns no frame, not a frame without rows.
\<close>

theorem combine_empty_counterexample:
  "\<not> (\<exists>df. combine_dataframes sort_key [] ''Month'' = Inr (Some df) \<and> rows df = [])"
  by (simp add: combine_dataframes_def)

text \<open>
  Claim C9, as the script has it. For the empty list \<^const>\<open>combine_dataframes\<close> returns
  \<^verbatim>\<open>None\<close>, whatever the sorting function and the label, and raises nothing.
\<close>

theorem combine_empty_returns_None:
  "combine_dataframes sort_values [] x_col = Inr None"
  by (simp add: combine_dataframes_def)

lemma zip_filter_fst:
  "length cols = length r \<Longrightarrow>
   zip (filter P cols) (map snd (filter (\<lambda>(d, v). P d) (zip cols r)))
     = filter (\<lambda>(d, v). P d) (zip cols r)"
  by (induction cols r rule: list_induct2) auto

lemma map_of_filter_key:
  "P k \<Longrightarrow> map_of (filter (\<lambda>(d, v). P d) zs) k = map_of zs k"
  by (induction zs) auto

lemma cell_at_drop:
  assumes "length cols = length r" and "k \<noteq> c"
  shows "cell_at (filter (\<lambda>d. d \<noteq> c) cols)
           (map snd (filter (\<lambda>(d, v). d \<noteq> c) (zip cols r))) k = cell_at cols r k"
  using assms
  by (simp add: cell_at_def zip_filter_fst [where P = "\<lambda>d. d \<noteq> c"]
      map_of_filter_key [where P = "\<lambda>d. d \<noteq> c"])

lemma map_of_zip_rename:
  "f k = k \<Longrightarrow> (\<And>d. f d = k \<Longrightarrow> d = k) \<Longrightarrow>
   map_of (zip (map f cols) r) k = map_of (zip cols r) k"
  by (induction cols arbitrary: r) (auto simp: zip_Cons1 split: list.splits)

lemma cell_at_rename:
  "k \<noteq> a \<Longrightarrow> k \<noteq> b \<Longrightarrow>
   cell_at (map (\<lambda>d. if d = a then b else d) cols) r k = cell_at cols r k"
proof -
  assume "k \<noteq> a" "k \<noteq> b"
  then have "map_of (zip (map (\<lambda>d. if d = a then b else d) cols) r) k = map_of (zip cols r) k"
    by (intro map_of_zip_rename) (auto split: if_splits)
  then show ?thesis
    by (simp add: cell_at_def)
qed

lemma x_first_drop_rows_equal:
  assumes wf: "\<forall>r \<in> set (rows df). length r = length (columns df)"
    and x: "x_col \<noteq> ''Sex''"
  shows "x_first x_col (drop_column ''Sex'' (rows_equal ''Sex'' n df)) =
           \<lparr>columns = x_col # filter (\<lambda>c. c \<noteq> ''Sex'' \<and> c \<noteq> x_col) (columns df),
            rows = map (\<lambda>r. map (cell_at (columns df) r)
                              (x_col # filter (\<lambda>c. c \<noteq> ''Sex'' \<and> c \<noteq> x_col) (columns df)))
                     (filter (\<lambda>r. cell_at (columns df) r ''Sex'' = Num n) (rows df))\<rparr>"
proof -
  have cols: "filter (\<lambda>c. c \<noteq> x_col) (filter (\<lambda>d. d \<noteq> ''Sex'') (columns df))
      = filter (\<lambda>c. c \<noteq> ''Sex'' \<and> c \<noteq> x_col) (columns df)"
    by simp
  have cell: "map (cell_at (filter (\<lambda>d. d \<noteq> ''Sex'') (columns df))
                   (map snd (filter (\<lambda>(d, v). d \<noteq> ''Sex'') (zip (columns df) r))))
               (x_col # filter (\<lambda>c. c \<noteq> ''Sex'' \<and> c \<noteq> x_col) (columns df))
            = map (cell_at (columns df) r)
               (x_col # filter (\<lambda>c. c \<noteq> ''Sex'' \<and> c \<noteq> x_col) (columns df))"
    if "r \<in> set (rows df)" for r
  proof -
    have len: "length (columns df) = length r"
      using wf that by simp
    show ?thesis
      using x by (simp add: cell_at_drop [OF len])
  qed
  show ?thesis
    by (simp add: x_first_def drop_column_def rows_equal_def select_columns_def cols cell
        del: list.map)
qed

lemma split_by_sex_tables:
  assumes wf: "\<forall>r \<in> set (rows df). length r = length (columns df)"
    and x: "x_col \<noteq> ''Sex''"
    and cols: "cols = x_col # filter (\<lambda>c. c \<noteq> ''Sex'' \<and> c \<noteq> x_col) (columns df)"
    and tab: "table = (\<lambda>sex_code.
                 \<lparr>columns = cols,
                  rows = map (\<lambda>r. map (cell_at (columns df) r) cols)
                           (filter (\<lambda>r. cell_at (columns df) r ''Sex'' = Num sex_code)
                              (rows df))\<rparr>)"
  shows "split_by_sex measurement x_col df =
           (if \<exists>r \<in> set (rows df). cell_at (columns df) r ''Sex'' = Num 1
            then [(measurement, ''boys'', table 1)] else []) @
           (if \<exists>r \<in> set (rows df). cell_at (columns df) r ''Sex'' = Num 2
            then [(measurement, ''girls'', table 2)] else [])"
proof -
  have t: "x_first x_col (drop_column ''Sex'' (rows_equal ''Sex'' n df)) = table n" for n
    unfolding tab cols by (rule x_first_drop_rows_equal [OF wf x])
  have e: "rows (rows_equal ''Sex'' n df) \<noteq> [] \<longleftrightarrow>
      (\<exists>r \<in> set (rows df). cell_at (columns df) r ''Sex'' = Num n)" for n
    by (simp add: rows_equal_def filter_empty_conv)
  show ?thesis
    unfolding split_by_sex_def by (simp add: Let_def t e)
qed

text \<open>
  Claim C7. For a well-formed CDC table with a \<open>Sex\<close> column, a recognised file name and
  its x-axis column (\<open>Agemos\<close>, renamed \<open>Month\<close>, for the tables by age; the first of
  \<open>Length\<close>, \<open>Height\<close>, \<open>Stature\<close> for the two by length), \<^const>\<open>process_cdc_file\<close> returns
  the boys' table, made of the rows with \<open>Sex = 1\<close> in their order, then the girls' table,
  made of the rows with \<open>Sex = 2\<close>, each only when it has a row. Either table has the
  x-axis column first, then the other columns in their order without \<open>Sex\<close>, every cell
  under its label. The witness is the table with \<open>Sex\<close> values 1, 2, 1 and two other columns.
\<close>

theorem gender_split:
  assumes wf: "wf_frame df"
    and meas: "find_measurement CDC_MEASUREMENT_MAP (lower stem) = Some measurement"
    and sex: "''Sex'' \<in> set (columns df)"
    and branch:
      "measurement \<in> set [''wfl'', ''wfh''] \<and> frame = df \<and> x_col \<in> set (columns df) \<and>
         x_col = (if ''Length'' \<in> set (columns df) then ''Length''
                  else if ''Height'' \<in> set (columns df) then ''Height'' else ''Stature'')
       \<or> measurement \<notin> set [''wfl'', ''wfh''] \<and> ''Agemos'' \<in> set (columns df) \<and>
         ''Month'' \<notin> set (columns df) \<and>
         frame = rename_column ''Agemos'' ''Month'' df \<and> x_col = ''Month''"
    and cols: "cols = x_col # filter (\<lambda>c. c \<noteq> ''Sex'' \<and> c \<noteq> x_col) (columns frame)"
    and tab: "table = (\<lambda>sex_code.
                 \<lparr>columns = cols,
                  rows = map (\<lambda>r. map (cell_at (columns frame) r) cols)
                           (filter (\<lambda>r. cell_at (columns df) r ''Sex'' = Num sex_code)
                              (rows df))\<rparr>)"
  shows "process_cdc_file stem (Some df) =
           (if \<exists>r \<in> set (rows df). cell_at (columns df) r ''Sex'' = Num 1
            then [(measurement, ''boys'', table 1)] else []) @
           (if \<exists>r \<in> set (rows df). cell_at (columns df) r ''Sex'' = Num 2
            then [(measurement, ''girls'', table 2)] else []) \<and>
         hd (columns (table sex_code)) = x_col \<and>
         ''Sex'' \<notin> set (columns (table sex_code)) \<and>
         set (columns (table sex_code)) = insert x_col (set (columns frame) - {''Sex''}) \<and>
         length (rows (table sex_code)) =
           length (filter (\<lambda>r. cell_at (columns df) r ''Sex'' = Num sex_code) (rows df))"
proof -
  have x: "x_col \<noteq> ''Sex''"
    using branch by (auto split: if_splits)
  have rf: "rows frame = rows df"
    using branch by (auto simp: rename_column_def)
  have wff: "\<forall>r \<in> set (rows frame). length r = length (columns frame)"
    using wf branch by (auto simp: wf_frame_def rename_column_def)
  have sf: "cell_at (columns frame) r ''Sex'' = cell_at (columns df) r ''Sex''" for r
    using branch by (auto simp: rename_column_def cell_at_rename)
  have tab': "table = (\<lambda>sex_code.
                 \<lparr>columns = cols,
                  rows = map (\<lambda>r. map (cell_at (columns frame) r) cols)
                           (filter (\<lambda>r. cell_at (columns frame) r ''Sex'' = Num sex_code)
                              (rows frame))\<rparr>)"
    by (simp add: tab sf rf)
  have call: "process_cdc_file stem (Some df) = split_by_sex measurement x_col frame"
    using branch sex meas
    by (auto simp: process_cdc_file_def Let_def split: if_splits)
  have "process_cdc_file stem (Some df) =
           (if \<exists>r \<in> set (rows df). cell_at (columns df) r ''Sex'' = Num 1
            then [(measurement, ''boys'', table 1)] else []) @
           (if \<exists>r \<in> set (rows df). cell_at (columns df) r ''Sex'' = Num 2
            then [(measurement, ''girls'', table 2)] else [])"
    unfolding call split_by_sex_tables [OF wff x cols tab', of measurement]
    by (simp add: sf rf)
  moreover have "hd (columns (table sex_code)) = x_col"
    and "''Sex'' \<notin> set (columns (table sex_code))"
    and "set (columns (table sex_code)) = insert x_col (set (columns frame) - {''Sex''})"
    and "length (rows (table sex_code)) =
           length (filter (\<lambda>r. cell_at (columns df) r ''Sex'' = Num sex_code) (rows df))"
    using x by (auto simp: tab cols)
  ultimately show ?thesis
    by blast
qed

theorem gender_split_witness:
  "process_cdc_file ''wtage''
     (Some \<lparr>columns = [''Sex'', ''Agemos'', ''M''],
            rows = [[Num 1, Num 24, Num 12.7], [Num 2, Num 24, Num 12.1],
                    [Num 1, Num 25, Num 12.9]]\<rparr>)
   = [(''wfa'', ''boys'',
       \<lparr>columns = [''Month'', ''M''], rows = [[Num 24, Num 12.7], [Num 25, Num 12.9]]\<rparr>),
      (''wfa'', ''girls'',
       \<lparr>columns = [''Month'', ''M''], rows = [[Num 24, Num 12.1]]\<rparr>)]"
proof -
  let ?df = "\<lparr>columns = [''Sex'', ''Agemos'', ''M''],
            rows = [[Num 1, Num 24, Num 12.7], [Num 2, Num 24, Num 12.1],
                    [Num 1, Num 25, Num 12.9]]\<rparr>"
  have wf: "wf_frame ?df"
    by (simp add: wf_frame_def)
  have meas: "find_measurement CDC_MEASUREMENT_MAP (lower ''wtage'') = Some ''wfa''"
    by (simp add: find_measurement_def CDC_MEASUREMENT_MAP_def lower_def lower_char_def
        sublist_code)
  have sex: "''Sex'' \<in> set (columns ?df)"
    by simp
  have branch:
    "''wfa'' \<in> set [''wfl'', ''wfh''] \<and> rename_column ''Agemos'' ''Month'' ?df = ?df \<and>
       ''Month'' \<in> set (columns ?df) \<and>
       ''Month'' = (if ''Length'' \<in> set (columns ?df) then ''Length''
                  else if ''Height'' \<in> set (columns ?df) then ''Height'' else ''Stature'')
     \<or> ''wfa'' \<notin> set [''wfl'', ''wfh''] \<and> ''Agemos'' \<in> set (columns ?df) \<and>
       ''Month'' \<notin> set (columns ?df) \<and>
       rename_column ''Agemos'' ''Month'' ?df = rename_column ''Agemos'' ''Month'' ?df \<and>
       ''Month'' = ''Month''"
    by simp
  show ?thesis
    using gender_split [OF wf meas sex branch refl refl, of 1]
    by (simp add: rename_column_def cell_at_def)
qed

lemma set_drop_duplicates_last: "set (drop_duplicates_last f rs) \<subseteq> set rs"
  by (induction rs) auto

lemma image_drop_duplicates_last: "f ` set (drop_duplicates_last f rs) = f ` set rs"
  by (induction rs) auto

lemma distinct_drop_duplicates_last: "distinct (map f (drop_duplicates_last f rs))"
  by (induction rs) (auto simp: image_drop_duplicates_last)

lemma sorted_drop_duplicates_last:
  "sorted (map key rs) \<Longrightarrow> sorted (map key (drop_duplicates_last f rs))"
proof (induction rs)
  case Nil
  show ?case by simp
next
  case (Cons r rs)
  have "set (drop_duplicates_last f rs) \<subseteq> set rs"
    by (rule set_drop_duplicates_last)
  with Cons show ?case
    by auto
qed

lemma filter_drop_duplicates_last:
  "filter (\<lambda>r. f r = k) (drop_duplicates_last f rs) =
     (case filter (\<lambda>r. f r = k) rs of [] \<Rightarrow> [] | r # rs' \<Rightarrow> [last (r # rs')])"
proof (induction rs)
  case Nil
  show ?case by simp
next
  case (Cons r rs)
  show ?case
  proof (cases "f r \<in> f ` set rs")
    case True
    then show ?thesis
      using Cons.IH by (auto simp: filter_empty_conv split: list.splits)
  next
    case False
    then have "f r = k \<Longrightarrow> filter (\<lambda>r. f r = k) rs = []"
      by (auto simp: filter_empty_conv image_iff)
    then show ?thesis
      using False Cons.IH by (auto split: list.splits)
  qed
qed

lemma inj_sort_rank: "inj sort_rank"
proof (rule injI)
  fix a b
  assume "sort_rank a = sort_rank b"
  then show "a = b"
    by (cases a; cases b) simp_all
qed

lemma set_first_labels: "set (first_labels cs) = set cs"
  by (simp add: first_labels_def)

lemma map_cell_at_self:
  "length cols = length r \<Longrightarrow> distinct cols \<Longrightarrow> map (cell_at cols r) cols = r"
proof (induction cols r rule: list_induct2)
  case Nil
  show ?case by simp
next
  case (Cons c cols v r)
  have tl: "map (cell_at (c # cols) (v # r)) cols = map (cell_at cols r) cols"
    using Cons.prems by (intro map_cong) (auto simp: cell_at_def)
  have hd: "cell_at (c # cols) (v # r) c = v"
    by (simp add: cell_at_def)
  have "map (cell_at (c # cols) (v # r)) (c # cols) = v # map (cell_at cols r) cols"
    by (simp only: list.map hd tl)
  also have "\<dots> = v # r"
    using Cons.IH Cons.prems by simp
  finally show ?case .
qed

lemma pd_concat_same_columns:
  assumes "dfs \<noteq> []" and "\<forall>df \<in> set dfs. wf_frame df \<and> columns df = cols"
  shows "pd_concat dfs = \<lparr>columns = cols, rows = concat (map rows dfs)\<rparr>"
proof -
  obtain df dfs' where d: "dfs = df # dfs'"
    using assms(1) by (cases dfs) auto
  have dist: "distinct cols"
    using assms(2) d by (auto simp: wf_frame_def)
  have "set (concat (map columns dfs')) \<subseteq> set cols"
    using assms(2) d by auto
  then have "remdups (rev (concat (map columns dfs')) @ rev cols) = remdups (rev cols)"
    by (intro remdups_append) simp
  then have labels: "first_labels (concat (map columns dfs)) = cols"
    using assms(2) d dist by (simp add: first_labels_def distinct_remdups_id)
  have row: "map (\<lambda>c. if c \<in> set (columns f) then cell_at (columns f) r c else NaN) cols = r"
    if "f \<in> set dfs" and "r \<in> set (rows f)" for f r
  proof -
    have c: "columns f = cols" and len: "length cols = length r"
      using assms(2) that by (auto simp: wf_frame_def)
    have "map (\<lambda>c. if c \<in> set (columns f) then cell_at (columns f) r c else NaN) cols
        = map (cell_at cols r) cols"
      by (intro map_cong) (simp_all add: c)
    then show ?thesis
      by (simp add: map_cell_at_self [OF len dist])
  qed
  have "concat (map (\<lambda>f. map (\<lambda>r. map (\<lambda>c. if c \<in> set (columns f)
                                                 then cell_at (columns f) r c else NaN) cols)
                                (rows f)) dfs)
      = concat (map rows dfs)"
    by (intro arg_cong [where f = concat] map_cong refl map_idI row)
  then show ?thesis
    by (simp add: pd_concat_def labels Let_def)
qed

text \<open>
  What \<^verbatim>\<open>combine_dataframes\<close> gives whatever the sort does with equal keys: for well-formed
  tables, one of which has the x-axis label, and comparable x-axis cells, a table whose
  x-axis cells are strictly ascending, hence unique, and are those of the input. When the
  tables have the same columns the concatenation lists their rows in the order given.
\<close>

lemma combine_sorted_unique:
  assumes os: "ordered_sort sort_values"
    and ne: "dfs \<noteq> []"
    and wf: "\<forall>df \<in> set dfs. wf_frame df"
    and xc: "\<exists>df \<in> set dfs. x_col \<in> set (columns df)"
    and cmp: "\<not> ((\<exists>v \<in> set (column x_col (pd_concat dfs)). is_num v) \<and>
                (\<exists>v \<in> set (column x_col (pd_concat dfs)). is_str v))"
    and x: "x = (\<lambda>r. cell_at (columns (pd_concat dfs)) r x_col)"
  shows "\<exists>combined.
            combine_dataframes sort_values dfs x_col = Inr (Some combined) \<and>
            columns combined = columns (pd_concat dfs) \<and>
            rows combined =
              drop_duplicates_last x
                (sort_values (\<lambda>r. sort_rank (x r)) (rows (pd_concat dfs))) \<and>
            sorted_wrt (<) (map (\<lambda>r. sort_rank (x r)) (rows combined)) \<and>
            distinct (map x (rows combined)) \<and>
            set (rows combined) \<subseteq> set (rows (pd_concat dfs)) \<and>
            x ` set (rows combined) = x ` set (rows (pd_concat dfs))"
    and "(\<forall>df \<in> set dfs. columns df = columns (hd dfs)) \<longrightarrow>
            columns (pd_concat dfs) = columns (hd dfs) \<and>
            rows (pd_concat dfs) = concat (map rows dfs)"
proof -
  let ?cat = "rows (pd_concat dfs)"
  let ?key = "\<lambda>r. sort_rank (x r)"
  let ?out = "drop_duplicates_last x (sort_values ?key ?cat)"
  have xc': "x_col \<in> set (columns (pd_concat dfs))"
    using xc by (auto simp: pd_concat_def Let_def set_first_labels)
  have res: "combine_dataframes sort_values dfs x_col =
      Inr (Some \<lparr>columns = columns (pd_concat dfs), rows = ?out\<rparr>)"
    using ne xc' cmp unfolding x by (simp add: combine_dataframes_def Let_def)
  have s: "sorted (map ?key (sort_values ?key ?cat))"
    and m: "mset (sort_values ?key ?cat) = mset ?cat"
    using os by (simp_all add: ordered_sort_def)
  have st: "set (sort_values ?key ?cat) = set ?cat"
    using m by (rule mset_eq_setD)
  have srt: "sorted (map ?key ?out)"
    using s by (rule sorted_drop_duplicates_last)
  have dst: "distinct (map x ?out)"
    by (rule distinct_drop_duplicates_last)
  have "distinct (map sort_rank (map x ?out))"
    using dst inj_sort_rank by (simp only: distinct_map) (blast intro: inj_on_subset)
  then have strict: "sorted_wrt (<) (map ?key ?out)"
    using srt by (simp add: strict_sorted_iff comp_def)
  have sub: "set ?out \<subseteq> set ?cat"
    using set_drop_duplicates_last [of x "sort_values ?key ?cat"] st by simp
  have img: "x ` set ?out = x ` set ?cat"
    by (simp add: image_drop_duplicates_last st)
  show "\<exists>combined.
            combine_dataframes sort_values dfs x_col = Inr (Some combined) \<and>
            columns combined = columns (pd_concat dfs) \<and>
            rows combined = ?out \<and>
            sorted_wrt (<) (map ?key (rows combined)) \<and>
            distinct (map x (rows combined)) \<and>
            set (rows combined) \<subseteq> set ?cat \<and>
            x ` set (rows combined) = x ` set ?cat"
    using res strict dst sub img by simp
  show "(\<forall>df \<in> set dfs. columns df = columns (hd dfs)) \<longrightarrow>
            columns (pd_concat dfs) = columns (hd dfs) \<and>
            rows (pd_concat dfs) = concat (map rows dfs)"
  proof
    assume "\<forall>df \<in> set dfs. columns df = columns (hd dfs)"
    with wf have "\<forall>df \<in> set dfs. wf_frame df \<and> columns df = columns (hd dfs)"
      by simp
    from pd_concat_same_columns [OF ne this]
    show "columns (pd_concat dfs) = columns (hd dfs) \<and>
            rows (pd_concat dfs) = concat (map rows dfs)"
      by simp
  qed
qed

text \<open>
  With a sort that keeps rows of equal key in their order, the row left for an x is the
  last row with that x in the concatenation: the row of the table listed last.
\<close>

lemma combine_stable_last_wins:
  assumes "x = (\<lambda>r. cell_at cols r x_col)"
  shows "filter (\<lambda>r. x r = k)
           (drop_duplicates_last x (sort_key (\<lambda>r. sort_rank (x r)) cat)) =
         (case filter (\<lambda>r. x r = k) cat of [] \<Rightarrow> [] | r # rs \<Rightarrow> [last (r # rs)])"
proof -
  have "(\<lambda>r. x r = k) = (\<lambda>r. sort_rank (x r) = sort_rank k)"
    using inj_sort_rank by (auto simp: inj_def)
  then have "filter (\<lambda>r. x r = k) (sort_key (\<lambda>r. sort_rank (x r)) cat)
      = filter (\<lambda>r. x r = k) cat"
    by (simp only: sort_key_stable)
  then show ?thesis
    by (simp only: filter_drop_duplicates_last)
qed


section \<open>Properties of the header normalisation\<close>


lemma lower_char_underscore: "lower_char c = CHR ''_'' \<longleftrightarrow> c = CHR ''_''"
  by (simp add: lower_char_def)

lemma strip_chars_map:
  "strip_chars P (map f z) = map f (strip_chars (P \<circ> f) z)"
  by (simp add: strip_chars_def dropWhile_map rev_map)

lemma lower_strip_underscores:
  "lower (strip_chars (\<lambda>c. c = CHR ''_'') z) = strip_chars (\<lambda>c. c = CHR ''_'') (lower z)"
proof -
  have "(\<lambda>c. c = CHR ''_'') \<circ> lower_char = (\<lambda>c. c = CHR ''_'')"
    by (simp add: fun_eq_iff lower_char_underscore)
  then show ?thesis
    by (simp add: lower_def strip_chars_map)
qed

lemma lower_sub_underscores: "lower (sub_underscores z) = sub_underscores (lower z)"
  by (induction z rule: sub_underscores.induct) (simp_all add: lower_def lower_char_underscore)

lemma set_sub_underscores: "set (sub_underscores z) \<subseteq> set z"
  by (induction z rule: sub_underscores.induct) auto

lemma sublist_strip_chars: "sublist (strip_chars P z) z"
proof -
  have "sublist (dropWhile P (rev (dropWhile P z))) (rev (dropWhile P z))"
    by simp
  then have "sublist (strip_chars P z) (dropWhile P z)"
    by (simp add: strip_chars_def sublist_rev_left)
  moreover have "sublist (dropWhile P z) z"
    by simp
  ultimately show ?thesis
    by (rule sublist_order.order_trans)
qed

lemma dropWhile_id: "xs \<noteq> [] \<Longrightarrow> \<not> P (hd xs) \<Longrightarrow> dropWhile P xs = xs"
  by (cases xs) auto

lemma last_dropWhile: "dropWhile P xs \<noteq> [] \<Longrightarrow> last (dropWhile P xs) = last xs"
  by (induction xs) (auto split: if_splits)

lemma strip_chars_id:
  "z = [] \<or> (\<not> P (hd z) \<and> \<not> P (last z)) \<Longrightarrow> strip_chars P z = z"
proof (cases z)
  case Nil
  then show ?thesis by (simp add: strip_chars_def)
next
  case (Cons a z')
  assume "z = [] \<or> (\<not> P (hd z) \<and> \<not> P (last z))"
  with Cons have h: "\<not> P a" and l: "\<not> P (last z)"
    by auto
  have 1: "dropWhile P z = z"
    using Cons h by simp
  have "rev z \<noteq> []" and "hd (rev z) = last z"
    using Cons by (simp_all add: hd_rev)
  then have 2: "dropWhile P (rev z) = rev z"
    using l by (intro dropWhile_id) simp_all
  show ?thesis
    by (simp add: strip_chars_def 1 2)
qed

lemma strip_chars_ends:
  "strip_chars P z = [] \<or> (\<not> P (hd (strip_chars P z)) \<and> \<not> P (last (strip_chars P z)))"
proof (cases "strip_chars P z = []")
  case True
  then show ?thesis by simp
next
  case False
  let ?u = "dropWhile P z"
  let ?v = "dropWhile P (rev ?u)"
  have v: "?v \<noteq> []"
    using False by (simp add: strip_chars_def)
  have u: "?u \<noteq> []"
  proof
    assume "?u = []"
    then have "?v = []"
      by (simp only: rev.simps dropWhile.simps)
    with v show False ..
  qed
  have "\<not> P (hd ?v)"
    using v by (rule hd_dropWhile)
  then have last: "\<not> P (last (strip_chars P z))"
    using v by (simp add: strip_chars_def last_rev)
  have "\<not> P (hd ?u)"
    using u by (rule hd_dropWhile)
  moreover have "last ?v = last (rev ?u)"
    using v by (rule last_dropWhile)
  ultimately have "\<not> P (hd (strip_chars P z))"
    using v u by (simp add: strip_chars_def hd_rev last_rev)
  with last show ?thesis
    by simp
qed

lemma hd_sub_underscores:
  "z \<noteq> [] \<Longrightarrow> sub_underscores z \<noteq> [] \<and> hd (sub_underscores z) = hd z"
  by (induction z rule: sub_underscores.induct) auto

lemma sub_underscores_Cons:
  "\<exists>es. sub_underscores (d # cs) = d # es"
  using hd_sub_underscores [of "d # cs"] by (cases "sub_underscores (d # cs)") auto

lemma sublist_double_Cons:
  "sublist ''__'' (c # d # cs) \<longleftrightarrow> (c = CHR ''_'' \<and> d = CHR ''_'') \<or> sublist ''__'' (d # cs)"
  by (auto simp: sublist_Cons_right [of _ c])

lemma sub_underscores_step:
  "\<not> (c = CHR ''_'' \<and> d = CHR ''_'') \<Longrightarrow>
   sub_underscores (c # d # cs) = c # sub_underscores (d # cs)"
  by auto

lemma no_double_sub_underscores: "\<not> sublist ''__'' (sub_underscores z)"
proof (induction z rule: sub_underscores.induct)
  case 1
  show ?case by simp
next
  case (2 c)
  show ?case by (simp add: sublist_code)
next
  case (3 c d cs)
  show ?case
  proof (cases "c = CHR ''_'' \<and> d = CHR ''_''")
    case True
    with 3 show ?thesis by simp
  next
    case False
    obtain es where e: "sub_underscores (d # cs) = d # es"
      using sub_underscores_Cons by blast
    have "\<not> sublist ''__'' (d # es)"
      using 3(2) False e by simp
    then have "\<not> sublist ''__'' (c # d # es)"
      using False by (simp only: sublist_double_Cons simp_thms)
    moreover have "sub_underscores (c # d # cs) = c # d # es"
      by (simp only: sub_underscores_step [OF False] e)
    ultimately show ?thesis
      by simp
  qed
qed

lemma sub_underscores_id: "\<not> sublist ''__'' z \<Longrightarrow> sub_underscores z = z"
proof (induction z rule: sub_underscores.induct)
  case 1
  show ?case by simp
next
  case (2 c)
  show ?case by simp
next
  case (3 c d cs)
  from 3(3) have nd: "\<not> (c = CHR ''_'' \<and> d = CHR ''_'')" and rest: "\<not> sublist ''__'' (d # cs)"
    by (simp_all only: sublist_double_Cons de_Morgan_disj simp_thms)
  from 3(2) [OF nd rest] show ?case
    by (simp only: sub_underscores_step [OF nd])
qed

lemma prefix_sub_underscores:
  "CHR ''_'' \<notin> set k \<Longrightarrow> prefix k (sub_underscores z) \<Longrightarrow> prefix k z"
proof (induction z arbitrary: k rule: sub_underscores.induct)
  case 1
  then show ?case by simp
next
  case (2 c)
  then show ?case by simp
next
  case (3 c d cs)
  show ?case
  proof (cases "c = CHR ''_'' \<and> d = CHR ''_''")
    case True
    obtain es where "sub_underscores (d # cs) = d # es"
      using sub_underscores_Cons by blast
    with True 3(4) have "prefix k (CHR ''_'' # es)"
      by simp
    with 3(3) have "k = []"
      by (cases k) auto
    then show ?thesis by simp
  next
    case False
    show ?thesis
    proof (cases k)
      case Nil
      then show ?thesis by simp
    next
      case (Cons a k')
      from 3(4) have "prefix (a # k') (c # sub_underscores (d # cs))"
        by (simp only: sub_underscores_step [OF False] Cons)
      then have a: "a = c" and p: "prefix k' (sub_underscores (d # cs))"
        by simp_all
      from 3(3) Cons have "CHR ''_'' \<notin> set k'"
        by simp
      from 3(2) [OF False this p] a Cons show ?thesis
        by simp
    qed
  qed
qed

lemma sublist_sub_underscores:
  "CHR ''_'' \<notin> set k \<Longrightarrow> sublist k (sub_underscores z) \<Longrightarrow> sublist k z"
proof (induction z rule: sub_underscores.induct)
  case 1
  then show ?case by simp
next
  case (2 c)
  then show ?case by simp
next
  case (3 c d cs)
  show ?case
  proof (cases "c = CHR ''_'' \<and> d = CHR ''_''")
    case True
    with 3 have "sublist k (d # cs)"
      by simp
    then show ?thesis
      by (simp add: sublist_Cons_right [of k c])
  next
    case False
    from 3(4) have "sublist k (c # sub_underscores (d # cs))"
      by (simp only: sub_underscores_step [OF False])
    then consider "prefix k (c # sub_underscores (d # cs))"
      | "sublist k (sub_underscores (d # cs))"
      by (auto simp: sublist_Cons_right [of k c])
    then show ?thesis
    proof cases
      case 1
      then have "prefix k (sub_underscores (c # d # cs))"
        by (simp only: sub_underscores_step [OF False])
      with 3(3) have "prefix k (c # d # cs)"
        by (rule prefix_sub_underscores)
      then show ?thesis by (rule prefix_imp_sublist)
    next
      case 2
      from 3(2) [OF False 3(3) 2] show ?thesis
        by (simp add: sublist_Cons_right [of k c])
    qed
  qed
qed

lemma map_eq_sublistD:
  assumes "map f xs = ps @ k @ ss"
  shows "\<exists>ps' k' ss'. xs = ps' @ k' @ ss' \<and> map f k' = k"
proof (intro exI conjI)
  show "xs = take (length ps) xs @ take (length k) (drop (length ps) xs)
      @ drop (length k) (drop (length ps) xs)"
    by (simp only: append_take_drop_id)
  have "map f (take (length k) (drop (length ps) xs))
      = take (length k) (drop (length ps) (map f xs))"
    by (simp add: take_map drop_map)
  also have "\<dots> = k"
    by (simp add: assms)
  finally show "map f (take (length k) (drop (length ps) xs)) = k" .
qed

lemma sublist_lower_sub_nonword:
  assumes k: "CHR ''_'' \<notin> set k" and s: "sublist k (lower (sub_nonword col))"
  shows "sublist k (lower col)"
proof -
  let ?g = "\<lambda>c. lower_char (if is_word_char c then c else CHR ''_'')"
  have "lower (sub_nonword col) = map ?g col"
    by (simp add: lower_def sub_nonword_def)
  with s obtain ps ss where "map ?g col = ps @ k @ ss"
    unfolding sublist_def by metis
  from map_eq_sublistD [OF this]
  obtain ps' k' ss' where col: "col = ps' @ k' @ ss'" and k': "map ?g k' = k"
    by blast
  have "lower_char c = ?g c" if "c \<in> set k'" for c
  proof -
    have "?g c \<in> set (map ?g k')"
      using that by (rule imageI [of c "set k'" ?g, unfolded set_map [symmetric]])
    with k k' have "?g c \<noteq> CHR ''_''"
      by metis
    then show ?thesis
      by (cases "is_word_char c") (simp_all add: lower_char_underscore)
  qed
  then have "map lower_char k' = map ?g k'"
    by (intro map_cong) simp_all
  then have "map lower_char k' = k"
    using k' by simp
  then have "lower col = lower ps' @ k @ lower ss'"
    by (simp add: col lower_def)
  then show ?thesis
    unfolding sublist_def by blast
qed

lemma a1: "\<forall>c \<in> set ''abcdefghijklmnopqrstuvwxyzABCDEFGHIJKLMNOPQRSTUVWXYZ0123456789_''.
      lowword (lower_char c)"
  by code_simp

lemma a2: "\<forall>c \<in> set ''abcdefghijklmnopqrstuvwxyz0123456789_''.
      lower_char c = c \<and> is_word_char c \<and> \<not> is_space c"
  by code_simp

lemma lowword_lower_char: "is_word_char c \<Longrightarrow> lowword (lower_char c)"
  using a1 unfolding is_word_char_def by (rule bspec)

lemma lowword_facts:
  assumes "lowword c"
  shows "lower_char c = c" and "is_word_char c" and "\<not> is_space c"
proof -
  from a2 assms have "lower_char c = c \<and> is_word_char c \<and> \<not> is_space c"
    unfolding lowword_def by (rule bspec)
  then show "lower_char c = c" and "is_word_char c" and "\<not> is_space c"
    by simp_all
qed

lemma lowword_underscore: "lowword (CHR ''_'')"
  by code_simp

lemma sanitized_alt:
  "sanitized col =
     strip_chars (\<lambda>c. c = CHR ''_'') (sub_underscores (lower (sub_nonword col)))"
  by (simp add: sanitized_def lower_strip_underscores lower_sub_underscores)

lemma lowword_sanitized: "c \<in> set (sanitized col) \<Longrightarrow> lowword c"
proof -
  assume "c \<in> set (sanitized col)"
  then have "c \<in> set (sub_underscores (lower (sub_nonword col)))"
    unfolding sanitized_alt using set_mono_sublist [OF sublist_strip_chars] by blast
  then have "c \<in> set (lower (sub_nonword col))"
    using set_sub_underscores by blast
  then obtain d where "c = lower_char (if is_word_char d then d else CHR ''_'')"
    by (auto simp: lower_def sub_nonword_def)
  then show "lowword c"
    using lowword_lower_char [of d] lowword_underscore lowword_facts(1) [OF lowword_underscore]
    by (cases "is_word_char d") simp_all
qed

lemma ends_in_set:
  "z = [] \<or> (hd z \<in> set z \<and> last z \<in> set z)"
  by (cases z) auto

lemma sanitized_fixed:
  "strip (sanitized col) = sanitized col"
  "lower (sanitized col) = sanitized col"
  "sub_nonword (sanitized col) = sanitized col"
  "sub_underscores (sanitized col) = sanitized col"
  "strip_chars (\<lambda>c. c = CHR ''_'') (sanitized col) = sanitized col"
proof -
  let ?s = "sanitized col"
  have low: "\<And>c. c \<in> set ?s \<Longrightarrow> lowword c"
    by (rule lowword_sanitized)
  show "strip ?s = ?s"
    unfolding strip_def
    using ends_in_set [of ?s] low lowword_facts(3) by (intro strip_chars_id) blast
  show "lower ?s = ?s"
    unfolding lower_def using low lowword_facts(1) by (intro map_idI) blast
  show "sub_nonword ?s = ?s"
    unfolding sub_nonword_def using low lowword_facts(2) by (intro map_idI) simp
  have "sublist ?s (sub_underscores (lower (sub_nonword col)))"
    unfolding sanitized_alt by (rule sublist_strip_chars)
  then have "\<not> sublist ''__'' ?s"
    using no_double_sub_underscores sublist_order.order_trans by blast
  then show "sub_underscores ?s = ?s"
    by (rule sub_underscores_id)
  show "strip_chars (\<lambda>c. c = CHR ''_'') ?s = ?s"
    unfolding sanitized_alt by (intro strip_chars_id strip_chars_ends)
qed

lemma sublist_sanitized:
  assumes "CHR ''_'' \<notin> set k" and "sublist k (sanitized col)"
  shows "sublist k (lower col)"
proof -
  have "sublist (sanitized col) (sub_underscores (lower (sub_nonword col)))"
    unfolding sanitized_alt by (rule sublist_strip_chars)
  with assms(2) have "sublist k (sub_underscores (lower (sub_nonword col)))"
    by (rule sublist_order.order_trans)
  with assms(1) have "sublist k (lower (sub_nonword col))"
    by (rule sublist_sub_underscores)
  with assms(1) show ?thesis
    by (rule sublist_lower_sub_nonword)
qed

lemma standardize_chain:
  "standardize_column_name x =
     (if sublist ''week/month'' (lower (strip x)) then ''age_weeks''
      else if sublist ''years'' (lower (strip x)) then ''age_years''
      else if sublist ''age'' (lower (strip x)) then ''age_years''
      else if sublist ''(years)'' (lower (strip x)) then ''age_years''
      else if sublist ''week'' (lower (strip x)) then ''age_weeks''
      else if sublist ''month'' (lower (strip x)) then ''age_months''
      else if sublist ''skeletal age'' (lower (strip x)) then ''skeletal_age''
      else if sublist ''ht. (inches)'' (lower (strip x)) then ''height_inches''
      else if sublist ''mature height'' (lower (strip x)) then ''mature_height_pct''
      else if sublist ''chart'' (lower (strip x)) then ''reference''
      else sanitized (strip x))"
  by (simp add: standardize_column_name_def mappings_def Let_def)

lemma N_values:
  "standardize_column_name ''age_weeks'' = ''age_years''"
  "standardize_column_name ''age_months'' = ''age_years''"
  "standardize_column_name ''age_years'' = ''age_years''"
  "standardize_column_name ''height_inches'' = ''height_inches''"
  "standardize_column_name ''mature_height_pct'' = ''mature_height_pct''"
  "standardize_column_name ''reference'' = ''reference''"
  by code_simp+

lemma skeletal_has_age: "sublist ''skeletal age'' s \<Longrightarrow> sublist ''age'' s"
proof -
  have "sublist ''age'' ''skeletal age''"
    by code_simp
  then show "sublist ''skeletal age'' s \<Longrightarrow> sublist ''age'' s"
    by (rule sublist_order.order_trans)
qed

lemma standardize_sanitized:
  assumes "\<forall>k \<in> set (map fst mappings). \<not> sublist k (lower col)"
  shows "standardize_column_name (sanitized col) = sanitized col"
proof -
  have keys: "\<forall>k \<in> set (map fst mappings). CHR ''_'' \<notin> set k"
    by code_simp
  have no: "\<not> sublist k (sanitized col)" if "k \<in> set (map fst mappings)" for k
    using sublist_sanitized [of k col] keys assms that by blast
  have "\<forall>k \<in> set (map fst mappings). \<not> sublist k (sanitized col)"
    using no by blast
  then show ?thesis
    by (simp add: standardize_chain sanitized_fixed mappings_def)
      (simp add: sanitized_def sanitized_fixed [unfolded sanitized_def])
qed

lemma standardize_twice:
  "standardize_column_name (standardize_column_name x) =
     (if standardize_column_name x \<in> {''age_weeks'', ''age_months''} then ''age_years''
      else standardize_column_name x)"
proof (cases "\<forall>k \<in> set (map fst mappings). \<not> sublist k (lower (strip x))")
  case True
  then have n: "standardize_column_name x = sanitized (strip x)"
    by (simp add: standardize_chain mappings_def)
  have fp: "standardize_column_name (sanitized (strip x)) = sanitized (strip x)"
    using True by (rule standardize_sanitized)
  have "sanitized (strip x) \<noteq> ''age_weeks''" "sanitized (strip x) \<noteq> ''age_months''"
    using fp N_values(1,2) by auto
  then show ?thesis
    by (simp add: n fp)
next
  case False
  then have "standardize_column_name x \<in>
      {''age_weeks'', ''age_years'', ''age_months'', ''height_inches'', ''mature_height_pct'',
       ''reference''}"
    using skeletal_has_age [of "lower (strip x)"]
    by (auto simp: standardize_chain mappings_def)
  then show ?thesis
    using N_values by auto
qed

text \<open>
  Claim C6 does not hold as it is stated: \<open>Week\<close> becomes \<open>age_weeks\<close>, which holds \<open>age\<close>
  and so becomes \<open>age_years\<close> when it is normalised again.
\<close>

theorem normalize_not_idempotent_counterexample:
  "standardize_column_name ''Week'' = ''age_weeks'' \<and>
   standardize_column_name (standardize_column_name ''Week'') = ''age_years''"
  by (simp add: standardize_column_name_def strip_def strip_chars_def is_space_def
      lower_def lower_char_def mappings_def sublist_code Let_def)

text \<open>
  Claim C6, as the script has it. Normalising a label twice gives the same as normalising
  it once unless the first result is \<open>age_weeks\<close> or \<open>age_months\<close>; these two become
  \<open>age_years\<close>. From the second application on nothing changes.
\<close>

theorem normalize_idempotent_except_ages:
  "(standardize_column_name x \<notin> {''age_weeks'', ''age_months''} \<longrightarrow>
      standardize_column_name (standardize_column_name x) = standardize_column_name x) \<and>
   (standardize_column_name x \<in> {''age_weeks'', ''age_months''} \<longrightarrow>
      standardize_column_name (standardize_column_name x) = ''age_years'') \<and>
   standardize_column_name (standardize_column_name (standardize_column_name x))
     = standardize_column_name (standardize_column_name x)"
proof -
  have "standardize_column_name (standardize_column_name (standardize_column_name x))
     = standardize_column_name (standardize_column_name x)"
    by (simp add: standardize_twice [of "standardize_column_name x"] standardize_twice [of x]
        N_values)
  then show ?thesis
    by (simp add: standardize_twice [of x])
qed

theorem normalize_idempotent_except_ages_witness:
  "standardize_column_name '' Weight (kg) '' = ''weight_kg'' \<and>
   standardize_column_name (standardize_column_name '' Weight (kg) '') = ''weight_kg'' \<and>
   standardize_column_name ''Month'' = ''age_months'' \<and>
   standardize_column_name (standardize_column_name ''Month'') = ''age_years''"
proof -
  have a: "standardize_column_name '' Weight (kg) '' = ''weight_kg''"
    and b: "standardize_column_name ''Month'' = ''age_months''"
    by code_simp+
  show ?thesis
    using normalize_idempotent_except_ages [of "'' Weight (kg) ''"]
      normalize_idempotent_except_ages [of "''Month''"] a b
    by simp
qed

end
